theory Spec2Isabelle
  imports Main "HOL-Library.Sublist"
begin

section \<open>Python values, exceptions and artifacts\<close>

text \<open>
  A \<open>str\<close> that is a path, a name or a message is kept as the \<open>char\<close> list of its
  encoding for the file system (an Isabelle \<open>char\<close> is one byte; \<open>/\<close>, \<open>.\<close> and NUL are
  single bytes in it), so a path that cannot be encoded is not in this type. A \<open>str\<close>
  that the code encodes itself, the content to write, is kept as its code points, since
  \<open>str.encode()\<close> fails on some of them.
\<close>

type_synonym bytes = string

type_synonym pystr = "nat list"

text \<open>
  Instances of Python's \<open>Exception\<close>. The operating-system errors carry the file name they
  are about, \<open>UnicodeEncodeError\<close> the first code point it refuses and the positions of
  the run it belongs to, every other exception its message. \<open>KeyboardInterrupt\<close> and
  \<open>SystemExit\<close> are not instances of \<open>Exception\<close> and stand outside the model.
\<close>

datatype exn =
    FileNotFoundError string
  | FileExistsError string
  | NotADirectoryError string
  | IsADirectoryError string
  | ValueError string
  | TypeError string
  | UnicodeEncodeError nat nat nat
  | OtherError string

definition hex_digit :: "nat \<Rightarrow> char" where
  "hex_digit n = ''0123456789abcdef'' ! n"

fun dec :: "nat \<Rightarrow> string" where
  "dec n = (if n < 10 then [hex_digit n] else dec (n div 10) @ [hex_digit (n mod 10)])"

declare dec.simps [simp del]

text \<open>
  \<open>repr\<close> of a \<open>str\<close>, which \<open>str(e)\<close> applies to the file name of an \<open>OSError\<close>: single
  quotes unless the text has a single and no double quote; the quote in use and the
  backslash are escaped, so are the control characters. Bytes from \<open>0x80\<close> on belong to
  characters outside ASCII, which are taken to be printable and stay.
\<close>

definition repr_char :: "char \<Rightarrow> char \<Rightarrow> string" where
  "repr_char q c =
     (if c = q \<or> c = CHR 0x5C then [CHR 0x5C, c]
      else if c = CHR 0x09 then [CHR 0x5C, CHR ''t'']
      else if c = CHR 0x0A then [CHR 0x5C, CHR ''n'']
      else if c = CHR 0x0D then [CHR 0x5C, CHR ''r'']
      else if (of_char c :: nat) < 0x20 \<or> c = CHR 0x7F then
        [CHR 0x5C, CHR ''x'', hex_digit (of_char c div 16), hex_digit (of_char c mod 16)]
      else [c])"

definition py_repr :: "string \<Rightarrow> string" where
  "py_repr s =
     (let q = (if CHR 0x27 \<in> set s \<and> CHR 0x22 \<notin> set s then CHR 0x22 else CHR 0x27)
      in q # concat (map (repr_char q) s) @ [q])"

text \<open>\<open>str(e)\<close>, as the f-strings of the source print it.\<close>

fun str_exn :: "exn \<Rightarrow> string" where
  "str_exn (FileNotFoundError p) = ''[Errno 2] No such file or directory: '' @ py_repr p"
| "str_exn (FileExistsError p) = ''[Errno 17] File exists: '' @ py_repr p"
| "str_exn (NotADirectoryError p) = ''[Errno 20] Not a directory: '' @ py_repr p"
| "str_exn (IsADirectoryError p) = ''[Errno 21] Is a directory: '' @ py_repr p"
| "str_exn (ValueError m) = m"
| "str_exn (TypeError m) = m"
| "str_exn (UnicodeEncodeError cp i j) =
     (if j = i + 1 then
        [CHR 0x27] @ ''utf-8'' @ [CHR 0x27] @ '' codec can'' @ [CHR 0x27]
        @ ''t encode character '' @ [CHR 0x27, CHR 0x5C, CHR ''u'']
        @ [hex_digit (cp div 4096), hex_digit (cp div 256 mod 16),
           hex_digit (cp div 16 mod 16), hex_digit (cp mod 16)]
        @ [CHR 0x27] @ '' in position '' @ dec i @ '': surrogates not allowed''
      else
        [CHR 0x27] @ ''utf-8'' @ [CHR 0x27] @ '' codec can'' @ [CHR 0x27]
        @ ''t encode characters in position '' @ dec i @ ''-'' @ dec (j - 1)
        @ '': surrogates not allowed'')"
| "str_exn (OtherError m) = m"

fun is_FileNotFoundError :: "exn \<Rightarrow> bool" where
  "is_FileNotFoundError (FileNotFoundError p) = True"
| "is_FileNotFoundError e = False"

text \<open>
  \<open>s.encode()\<close>, the UTF-8 codec with strict errors: one to four bytes for a code point,
  and \<open>UnicodeEncodeError\<close> at the first surrogate (\<open>U+D800\<close> to \<open>U+DFFF\<close>), reported
  with the run of surrogates it starts.
\<close>

definition is_surrogate :: "nat \<Rightarrow> bool" where
  "is_surrogate cp = (0xD800 \<le> cp \<and> cp \<le> 0xDFFF)"

definition utf8_char :: "nat \<Rightarrow> bytes" where
  "utf8_char cp =
     (if cp < 0x80 then [char_of cp]
      else if cp < 0x800 then [char_of (0xC0 + cp div 0x40), char_of (0x80 + cp mod 0x40)]
      else if cp < 0x10000 then
        [char_of (0xE0 + cp div 0x1000), char_of (0x80 + cp div 0x40 mod 0x40),
         char_of (0x80 + cp mod 0x40)]
      else
        [char_of (0xF0 + cp div 0x40000), char_of (0x80 + cp div 0x1000 mod 0x40),
         char_of (0x80 + cp div 0x40 mod 0x40), char_of (0x80 + cp mod 0x40)])"

definition utf8 :: "pystr \<Rightarrow> bytes" where
  "utf8 s = concat (map utf8_char s)"

definition str_encode :: "pystr \<Rightarrow> exn + bytes" where
  "str_encode s =
     (let i = length (takeWhile (\<lambda>cp. \<not> is_surrogate cp) s);
          run = takeWhile is_surrogate (drop i s)
      in case run of
           [] \<Rightarrow> Inr (utf8 s)
         | cp # more \<Rightarrow> Inl (UnicodeEncodeError cp i (i + length run)))"

text \<open>
  The payload a stored artifact carries (\<open>a.value\<close>): a \<open>str\<close>, a bytes-like object, or
  an object of another type, of which the name of the type is kept.
\<close>

datatype pyvalue = PyStr pystr | PyBytes bytes | PyOther string

text \<open>
  The argument of \<open>file.write\<close> in \<open>_save_to_disk\<close>,
  \<open>value.encode() if isinstance(value, str) else value\<close>, and the check \<open>write\<close> makes of
  it.
\<close>

definition to_bytes :: "pyvalue \<Rightarrow> exn + bytes" where
  "to_bytes v =
     (case v of
        PyStr s \<Rightarrow> str_encode s
      | PyBytes b \<Rightarrow> Inr b
      | PyOther t \<Rightarrow>
          Inl (TypeError (''a bytes-like object is required, not '' @ [CHR 0x27] @ t @ [CHR 0x27])))"

text \<open>
  The artifacts of \<open>griptape.artifacts\<close>: the four kinds of the data model, and the
  artifact a loaded file becomes, which carries the bytes read.
\<close>

datatype artifact =
    TextArtifact string
  | ErrorArtifact string
  | InfoArtifact string
  | ListArtifact "artifact list"
  | BlobArtifact bytes

fun is_TextArtifact :: "artifact \<Rightarrow> bool" where
  "is_TextArtifact (TextArtifact t) = True"
| "is_TextArtifact a = False"

section \<open>Paths: \<open>posixpath\<close> and \<open>pathlib\<close>\<close>

definition sep :: char where
  "sep = CHR ''/''"

definition startswith_sep :: "string \<Rightarrow> bool" where
  "startswith_sep b = (case b of [] \<Rightarrow> False | c # cs \<Rightarrow> c = sep)"

definition endswith_sep :: "string \<Rightarrow> bool" where
  "endswith_sep a = (case rev a of [] \<Rightarrow> False | c # cs \<Rightarrow> c = sep)"

text \<open>One round of the loop of \<open>posixpath.join(a, *p)\<close>: an absolute component replaces
  everything before it.\<close>

definition join_step :: "string \<Rightarrow> string \<Rightarrow> string" where
  "join_step path b =
     (if startswith_sep b then b
      else if path = [] \<or> endswith_sep path then path @ b
      else path @ [sep] @ b)"

definition posix_join :: "string \<Rightarrow> string list \<Rightarrow> string" where
  "posix_join a p = foldl join_step a p"

text \<open>\<open>head.rstrip(sep)\<close>.\<close>

definition rstrip_sep :: "string \<Rightarrow> string" where
  "rstrip_sep a = rev (dropWhile (\<lambda>c. c = sep) (rev a))"

text \<open>\<open>posixpath.dirname\<close>: the text up to the last separator, with trailing separators
  stripped unless it is made of separators only.\<close>

definition posix_dirname :: "string \<Rightarrow> string" where
  "posix_dirname p =
     (let head = rev (dropWhile (\<lambda>c. c \<noteq> sep) (rev p))
      in if head \<noteq> [] \<and> \<not> list_all (\<lambda>c. c = sep) head
         then rstrip_sep head
         else head)"

text \<open>\<open>p.split('/')\<close>: never empty; \<open>''/a''\<close> gives \<open>['''', ''a'']\<close>.\<close>

fun split_sep :: "string \<Rightarrow> string list" where
  "split_sep [] = [[]]"
| "split_sep (c # cs) =
     (if c = sep then [] # split_sep cs
      else (case split_sep cs of [] \<Rightarrow> [[c]] | x # xs \<Rightarrow> (c # x) # xs))"

fun join_sep :: "string list \<Rightarrow> string" where
  "join_sep [] = []"
| "join_sep [x] = x"
| "join_sep (x # y # ys) = x @ [sep] @ join_sep (y # ys)"

text \<open>A component that names something: not empty and not \<open>.\<close>.\<close>

definition is_part :: "string \<Rightarrow> bool" where
  "is_part c = (c \<noteq> [] \<and> c \<noteq> ''.'')"

text \<open>\<open>Path(workdir).is_absolute()\<close> on a POSIX system: the path has a root.\<close>

definition is_absolute :: "string \<Rightarrow> bool" where
  "is_absolute w = startswith_sep w"

text \<open>\<open>str(Path(p))\<close>: \<open>pathlib\<close> drops empty and \<open>.\<close> components, keeps \<open>..\<close>, keeps a
  root of exactly two slashes and writes the empty path as \<open>.\<close>.\<close>

definition path_root :: "string \<Rightarrow> string" where
  "path_root p =
     (if take 2 p = [sep, sep] \<and> take 3 p \<noteq> [sep, sep, sep] then [sep, sep]
      else if startswith_sep p then [sep]
      else [])"

definition Path_str :: "string \<Rightarrow> string" where
  "Path_str p =
     (let parts = filter is_part (split_sep p); root = path_root p
      in if root = [] \<and> parts = [] then ''.'' else root @ join_sep parts)"

section \<open>FileManager: construction\<close>

text \<open>
  The tool object. \<open>find_input_memory\<close> is a method of \<open>BaseTool\<close> and a memory is read
  through \<open>load_artifacts\<close> only; both are collaborators outside this code and may raise.
\<close>

record stored_artifact =
  name :: string
  "value" :: pyvalue

type_synonym memory = "string \<Rightarrow> exn + stored_artifact list"

record FileManager =
  workdir :: string
  find_input_memory :: "string \<Rightarrow> exn + memory option"

text \<open>\<open>validate_workdir\<close>, the validator of the field \<open>workdir\<close>.\<close>

definition validate_workdir :: "string \<Rightarrow> exn + unit" where
  "validate_workdir w =
     (if \<not> is_absolute w then Inl (ValueError ''workdir has to be absolute absolute'')
      else Inr ())"

text \<open>The \<open>__init__\<close> that \<open>attr.define\<close> generates: it runs the validator.\<close>

definition FileManager_init :: "string \<Rightarrow> (string \<Rightarrow> exn + memory option) \<Rightarrow> exn + FileManager" where
  "FileManager_init w mems =
     (case validate_workdir w of
        Inl e \<Rightarrow> Inl e
      | Inr u \<Rightarrow> Inr \<lparr>workdir = w, find_input_memory = mems\<rparr>)"

text \<open>
  The assignment \<open>tool.workdir = w\<close>. A class made by \<open>attr.define\<close> runs the validators
  of a field on every assignment to it as well (\<open>on_setattr\<close>), before the field changes.
\<close>

definition set_workdir :: "FileManager \<Rightarrow> string \<Rightarrow> exn + FileManager" where
  "set_workdir fm w =
     (case validate_workdir w of
        Inl e \<Rightarrow> Inl e
      | Inr u \<Rightarrow> Inr (fm\<lparr>workdir := w\<rparr>))"

section \<open>The file system\<close>

text \<open>
  An idealised POSIX file system: a node is a directory or a regular file holding bytes,
  found by the list of names leading to it from the root, which is always a directory.
  There are no symbolic links, and the system refuses nothing for permissions, space or
  the length of a name: the failures are those of the shape of the tree and of the path.
  A relative path starts at \<open>cwd\<close>, which names a directory.
\<close>

datatype node = Dir | File bytes

record os_state =
  files :: "string list \<Rightarrow> node option"
  cwd :: "string list"

definition node_at :: "os_state \<Rightarrow> string list \<Rightarrow> node option" where
  "node_at st q = (if q = [] then Some Dir else files st q)"

definition start_dir :: "os_state \<Rightarrow> string \<Rightarrow> string list" where
  "start_dir st p = (if startswith_sep p then [] else cwd st)"

definition has_nul :: "string \<Rightarrow> bool" where
  "has_nul p = (CHR 0x00 \<in> set p)"

text \<open>A component that names an entry of a directory: not empty, not \<open>.\<close>, not \<open>..\<close>.\<close>

definition is_name :: "string \<Rightarrow> bool" where
  "is_name c = (is_part c \<and> c \<noteq> ''..'')"

text \<open>
  Path resolution as the kernel does it, one component after the other from \<open>cur\<close>: an
  empty component and \<open>.\<close> stay, \<open>..\<close> goes up, a name must be an existing directory.
  \<open>p\<close> is the path as given, for the error.
\<close>

fun walk :: "os_state \<Rightarrow> string \<Rightarrow> string list \<Rightarrow> string list \<Rightarrow> exn + string list" where
  "walk st p cur [] = Inr cur"
| "walk st p cur (c # cs) =
     (if \<not> is_part c then walk st p cur cs
      else if c = ''..'' then walk st p (butlast cur) cs
      else (case node_at st (cur @ [c]) of
              None \<Rightarrow> Inl (FileNotFoundError p)
            | Some Dir \<Rightarrow> walk st p (cur @ [c]) cs
            | Some (File b) \<Rightarrow> Inl (NotADirectoryError p)))"

text \<open>
  \<open>os.makedirs(name, exist_ok=True)\<close>: every directory on the way that is missing is
  created, leftmost first, and an existing directory is accepted. A regular file on the
  way is an error, and what was created before it stays: \<open>FileExistsError\<close> for \<open>name\<close>
  when the file is its last component, else \<open>NotADirectoryError\<close> for the text of \<open>name\<close>
  up to the component after the file, the first directory \<open>mkdir\<close> is asked to make
  there. A component with a NUL byte is refused by Python when it comes to making it.
  \<open>seen\<close> holds the components already passed.
\<close>

fun mkdirs :: "os_state \<Rightarrow> string \<Rightarrow> string list \<Rightarrow> string list \<Rightarrow> string list \<Rightarrow> (exn + unit) \<times> os_state" where
  "mkdirs st p seen cur [] = (Inr (), st)"
| "mkdirs st p seen cur (c # cs) =
     (if \<not> is_part c then mkdirs st p (seen @ [c]) cur cs
      else if c = ''..'' then mkdirs st p (seen @ [c]) (butlast cur) cs
      else if has_nul c then (Inl (ValueError ''embedded null byte''), st)
      else (case node_at st (cur @ [c]) of
              None \<Rightarrow>
                mkdirs (st\<lparr>files := (files st)(cur @ [c] \<mapsto> Dir)\<rparr>) p (seen @ [c]) (cur @ [c]) cs
            | Some Dir \<Rightarrow> mkdirs st p (seen @ [c]) (cur @ [c]) cs
            | Some (File b) \<Rightarrow>
                (case dropWhile (\<lambda>x. x = []) cs of
                   [] \<Rightarrow> (Inl (FileExistsError p), st)
                 | x # xs \<Rightarrow>
                     (if has_nul x then (Inl (ValueError ''embedded null byte''), st)
                      else (Inl (NotADirectoryError
                        (join_sep (seen @ c # takeWhile (\<lambda>x. x = []) cs @ [x]))), st)))))"

definition os_makedirs :: "os_state \<Rightarrow> string \<Rightarrow> (exn + unit) \<times> os_state" where
  "os_makedirs st p =
     (if p = [] then (Inl (FileNotFoundError p), st)
      else mkdirs st p [] (start_dir st p) (split_sep p))"

text \<open>
  \<open>open(p, "wb")\<close>: the directory of the last component must exist, the last component
  must be a name that is not a directory; the file is created, or emptied when it is
  there. The open file is known by the place of its node.
\<close>

definition os_open_wb :: "os_state \<Rightarrow> string \<Rightarrow> (exn + string list) \<times> os_state" where
  "os_open_wb st p =
     (if has_nul p then (Inl (ValueError ''embedded null byte''), st)
      else if p = [] then (Inl (FileNotFoundError p), st)
      else (case walk st p (start_dir st p) (butlast (split_sep p)) of
              Inl e \<Rightarrow> (Inl e, st)
            | Inr d \<Rightarrow>
                (let l = last (split_sep p) in
                 if \<not> is_name l then (Inl (IsADirectoryError p), st)
                 else (case node_at st (d @ [l]) of
                         Some Dir \<Rightarrow> (Inl (IsADirectoryError p), st)
                       | _ \<Rightarrow> (Inr (d @ [l]), st\<lparr>files := (files st)(d @ [l] \<mapsto> File [])\<rparr>)))))"

text \<open>\<open>file.write(data)\<close> on a file just opened, and the end of the \<open>with\<close> block.\<close>

definition file_write :: "os_state \<Rightarrow> string list \<Rightarrow> bytes \<Rightarrow> os_state" where
  "file_write st file data = st\<lparr>files := (files st)(file \<mapsto> File data)\<rparr>"

text \<open>\<open>open(p, "rb")\<close> followed by \<open>file.read()\<close>.\<close>

definition os_read_file :: "os_state \<Rightarrow> string \<Rightarrow> exn + bytes" where
  "os_read_file st p =
     (if has_nul p then Inl (ValueError ''embedded null byte'')
      else if p = [] then Inl (FileNotFoundError p)
      else (case walk st p (start_dir st p) (butlast (split_sep p)) of
              Inl e \<Rightarrow> Inl e
            | Inr d \<Rightarrow>
                (let l = last (split_sep p) in
                 if \<not> is_name l then Inl (IsADirectoryError p)
                 else (case node_at st (d @ [l]) of
                         None \<Rightarrow> Inl (FileNotFoundError p)
                       | Some Dir \<Rightarrow> Inl (IsADirectoryError p)
                       | Some (File b) \<Rightarrow> Inr b))))"

text \<open>\<open>os.stat(p)\<close>, as far as the kind of the node goes: the whole path is resolved.\<close>

definition os_stat :: "os_state \<Rightarrow> string \<Rightarrow> exn + node" where
  "os_stat st p =
     (if has_nul p then Inl (ValueError ''embedded null byte'')
      else if p = [] then Inl (FileNotFoundError p)
      else (case walk st p (start_dir st p) (butlast (split_sep p)) of
              Inl e \<Rightarrow> Inl e
            | Inr d \<Rightarrow>
                (let l = last (split_sep p) in
                 if \<not> is_part l then Inr Dir
                 else if l = ''..'' then Inr Dir
                 else (case node_at st (d @ [l]) of
                         None \<Rightarrow> Inl (FileNotFoundError p)
                       | Some n \<Rightarrow> Inr n))))"

section \<open>FileManager: the activities\<close>

text \<open>
  The activities are modelled on parameters of the shape their schema declares:
  \<open>params["values"]\<close> holds every key, a string under each, a list of strings under
  \<open>paths\<close>.
\<close>

type_synonym loader = "string \<Rightarrow> string \<Rightarrow> os_state \<Rightarrow> exn + artifact"

text \<open>
  Modelled from the spec: \<open>FileLoader(workdir).load(path)\<close> of \<open>griptape.loaders\<close>,
  which is not part of this code. It resolves the path against the work directory, fails
  with the error of the file system when no file is there, and returns an artifact
  carrying the bytes of the file.
\<close>

definition FileLoader_load :: loader where
  "FileLoader_load w path st =
     (case os_read_file st (posix_join w [path]) of
        Inl e \<Rightarrow> Inl e
      | Inr b \<Rightarrow> Inr (BlobArtifact b))"

text \<open>
  The loop of \<open>load_files_from_disk\<close>; \<open>acc\<close> is \<open>list_artifact.value\<close>. The loader is a
  parameter \<open>ld\<close>, called with \<open>Path(path)\<close>; the message of the first \<open>except\<close> clause
  puts the path as given between two backquotes.
\<close>

fun load_loop :: "loader \<Rightarrow> string \<Rightarrow> os_state \<Rightarrow> artifact list \<Rightarrow> string list \<Rightarrow> exn + artifact" where
  "load_loop ld w st acc [] = Inr (ListArtifact acc)"
| "load_loop ld w st acc (path # paths) =
     (case ld w (Path_str path) st of
        Inr a \<Rightarrow> load_loop ld w st (acc @ [a]) paths
      | Inl e \<Rightarrow>
          (if is_FileNotFoundError e then
             Inr (ErrorArtifact (''file in path '' @ [CHR 0x60] @ path @ [CHR 0x60] @ '' not found''))
           else Inr (ErrorArtifact (''error loading file: '' @ str_exn e))))"

definition load_files_from_disk :: "loader \<Rightarrow> FileManager \<Rightarrow> string list \<Rightarrow> os_state \<Rightarrow> exn + artifact" where
  "load_files_from_disk ld fm paths st = load_loop ld (workdir fm) st [] paths"

text \<open>
  \<open>_save_to_disk\<close>: the directories are made, the file is opened, which creates or
  empties it, and only then is the value encoded and written; a failure of the last
  step leaves the empty file.
\<close>

definition save_to_disk :: "string \<Rightarrow> pyvalue \<Rightarrow> os_state \<Rightarrow> (exn + unit) \<times> os_state" where
  "save_to_disk path v st =
     (case os_makedirs st (posix_dirname path) of
        (Inl e, st1) \<Rightarrow> (Inl e, st1)
      | (Inr u, st1) \<Rightarrow>
          (case os_open_wb st1 path of
             (Inl e, st2) \<Rightarrow> (Inl e, st2)
           | (Inr file, st2) \<Rightarrow>
               (case to_bytes v of
                  Inl e \<Rightarrow> (Inl e, st2)
                | Inr data \<Rightarrow> (Inr (), file_write st2 file data))))"

text \<open>What both \<open>try\<close> blocks around the writes return.\<close>

definition write_result :: "(exn + unit) \<times> os_state \<Rightarrow> (exn + artifact) \<times> os_state" where
  "write_result r =
     (case r of
        (Inr u, st1) \<Rightarrow> (Inr (InfoArtifact ''saved successfully''), st1)
      | (Inl e, st1) \<Rightarrow> (Inr (ErrorArtifact (''error writing file to disk: '' @ str_exn e)), st1))"

definition save_content_to_file :: "FileManager \<Rightarrow> string \<Rightarrow> pystr \<Rightarrow> os_state \<Rightarrow> (exn + artifact) \<times> os_state" where
  "save_content_to_file fm new_path content st =
     (let full_path = posix_join (workdir fm) [new_path]
      in write_result (save_to_disk full_path (PyStr content) st))"

record save_params =
  memory_name :: string
  artifact_namespace :: string
  dir_name :: string
  file_name :: string

text \<open>The loop over several artifacts: the first write that fails ends it.\<close>

definition prefixed_name :: "stored_artifact \<Rightarrow> string \<Rightarrow> string" where
  "prefixed_name a fname = name a @ ''-'' @ fname"

fun save_each :: "string \<Rightarrow> string \<Rightarrow> string \<Rightarrow> stored_artifact list \<Rightarrow> os_state \<Rightarrow> (exn + unit) \<times> os_state" where
  "save_each w dname fname [] st = (Inr (), st)"
| "save_each w dname fname (a # as) st =
     (case save_to_disk (posix_join w [dname, prefixed_name a fname]) (value a) st of
        (Inl e, st1) \<Rightarrow> (Inl e, st1)
      | (Inr u, st1) \<Rightarrow> save_each w dname fname as st1)"

definition save_memory_artifacts_to_disk :: "FileManager \<Rightarrow> save_params \<Rightarrow> os_state \<Rightarrow> (exn + artifact) \<times> os_state" where
  "save_memory_artifacts_to_disk fm ps st =
     (case find_input_memory fm (memory_name ps) of
        Inl e \<Rightarrow> (Inl e, st)
      | Inr None \<Rightarrow> (Inr (ErrorArtifact ''memory not found''), st)
      | Inr (Some memory) \<Rightarrow>
          (case memory (artifact_namespace ps) of
             Inl e \<Rightarrow> (Inl e, st)
           | Inr artifacts \<Rightarrow>
               (if length artifacts = 0 then (Inr (ErrorArtifact ''no artifacts found''), st)
                else if length artifacts = 1 then
                  write_result (save_to_disk
                    (posix_join (workdir fm) [dir_name ps, file_name ps])
                    (value (artifacts ! 0)) st)
                else
                  write_result (save_each (workdir fm) (dir_name ps) (file_name ps) artifacts st))))"

section \<open>TextManagerRamp\<close>

text \<open>
  The storage driver is a collaborator: three operations over a store \<open>'d\<close> of its own,
  each of which may raise. So is the template renderer \<open>J2("ramps/storage.j2").render\<close>,
  a function of its four keyword arguments.
\<close>

record 'd text_storage_driver =
  save :: "string \<Rightarrow> 'd \<Rightarrow> (exn + string) \<times> 'd"
  query_record :: "string \<Rightarrow> string \<Rightarrow> 'd \<Rightarrow> (exn + artifact) \<times> 'd"
  summarize_record_of :: "string \<Rightarrow> 'd \<Rightarrow> (exn + artifact) \<times> 'd"

record 'd TextManagerRamp =
  ramp_name :: string
  driver :: "'d text_storage_driver"

record tool_activity =
  tool_name :: string
  activity_name :: string

type_synonym renderer = "string \<Rightarrow> string \<Rightarrow> string \<Rightarrow> string \<Rightarrow> exn + string"

definition process_output ::
  "renderer \<Rightarrow> 'd TextManagerRamp \<Rightarrow> tool_activity \<Rightarrow> artifact \<Rightarrow> 'd \<Rightarrow> (exn + artifact) \<times> 'd" where
  "process_output j2 ramp act v d =
     (case v of
        TextArtifact text \<Rightarrow>
          (case save (driver ramp) text d of
             (Inl e, d1) \<Rightarrow> (Inl e, d1)
           | (Inr key, d1) \<Rightarrow>
               (case j2 (ramp_name ramp) (tool_name act) (activity_name act) key of
                  Inl e \<Rightarrow> (Inl e, d1)
                | Inr output \<Rightarrow> (Inr (TextArtifact output), d1)))
      | _ \<Rightarrow> (Inr v, d))"

text \<open>The parameter of \<open>search_record\<close>, of the shape its schema declares: \<open>value["id"]\<close>
  and \<open>value["query"]\<close>.\<close>

record query_params =
  record_id :: string
  query :: string

definition search_record :: "'d TextManagerRamp \<Rightarrow> query_params \<Rightarrow> 'd \<Rightarrow> (exn + artifact) \<times> 'd" where
  "search_record ramp v d = query_record (driver ramp) (record_id v) (query v) d"

definition summarize_record :: "'d TextManagerRamp \<Rightarrow> string \<Rightarrow> 'd \<Rightarrow> (exn + artifact) \<times> 'd" where
  "summarize_record ramp v d = summarize_record_of (driver ramp) v d"

section \<open>Notions the claims speak of\<close>

text \<open>The message of the error artifact for a path whose loading raised \<open>e\<close>, as the two
  \<open>except\<close> clauses of \<open>load_files_from_disk\<close> write it.\<close>

definition load_error_message :: "string \<Rightarrow> exn \<Rightarrow> string" where
  "load_error_message path e =
     (if is_FileNotFoundError e then
        ''file in path '' @ [CHR 0x60] @ path @ [CHR 0x60] @ '' not found''
      else ''error loading file: '' @ str_exn e)"

text \<open>A tool after its construction with \<open>workdir = w\<close> and the assignments of
  \<open>ws\<close> to \<open>workdir\<close>, one after the other; the first step that raises ends it.\<close>

fun assignments :: "FileManager \<Rightarrow> string list \<Rightarrow> exn + FileManager" where
  "assignments fm [] = Inr fm"
| "assignments fm (w # ws) =
     (case set_workdir fm w of Inl e \<Rightarrow> Inl e | Inr fm1 \<Rightarrow> assignments fm1 ws)"

text \<open>\<open>os.path.isfile\<close>: the path leads to a regular file.\<close>

definition is_file :: "os_state \<Rightarrow> string \<Rightarrow> bool" where
  "is_file st p = (case os_stat st p of Inr (File b) \<Rightarrow> True | _ \<Rightarrow> False)"

text \<open>A node that is a regular file.\<close>

definition is_regular :: "node option \<Rightarrow> bool" where
  "is_regular n = (case n of Some (File b) \<Rightarrow> True | _ \<Rightarrow> False)"

text \<open>The components of a path that matter to its resolution, and those before the
  last component.\<close>

definition names_of :: "string \<Rightarrow> string list" where
  "names_of p = filter is_part (split_sep p)"

definition dir_names :: "string \<Rightarrow> string list" where
  "dir_names p = filter is_part (butlast (split_sep p))"

text \<open>The place a list of names leads to from \<open>cur\<close> when every directory on the way
  exists: \<open>..\<close> goes up, any other name goes down.\<close>

fun resolve :: "string list \<Rightarrow> string list \<Rightarrow> string list" where
  "resolve cur [] = cur"
| "resolve cur (c # cs) =
     (if c = ''..'' then resolve (butlast cur) cs else resolve (cur @ [c]) cs)"

text \<open>The place an absolute path names.\<close>

definition place_of :: "string \<Rightarrow> string list" where
  "place_of p = resolve [] (names_of p)"

text \<open>The places entered on the way, one for every name that is not \<open>..\<close>.\<close>

fun visits :: "string list \<Rightarrow> string list \<Rightarrow> string list list" where
  "visits cur [] = []"
| "visits cur (c # cs) =
     (if c = ''..'' then visits (butlast cur) cs else (cur @ [c]) # visits (cur @ [c]) cs)"

text \<open>The directories an absolute path passes before its last component.\<close>

definition way_of :: "string \<Rightarrow> string list list" where
  "way_of p = visits [] (dir_names p)"

text \<open>A list of names that, \<open>n\<close> levels below some directory, never climbs above that
  directory: no \<open>..\<close> where no name is left to take back.\<close>

fun inside :: "nat \<Rightarrow> string list \<Rightarrow> bool" where
  "inside n [] = True"
| "inside n (c # cs) =
     (if c = ''..'' then 0 < n \<and> inside (n - 1) cs else inside (Suc n) cs)"

text \<open>A relative path that never climbs above the directory it starts in.\<close>

definition stays_inside :: "string list \<Rightarrow> bool" where
  "stays_inside ps = (list_all (\<lambda>p. \<not> startswith_sep p) ps \<and> inside 0 (concat (map names_of ps)))"

text \<open>Between two states, a regular file appeared at \<open>q\<close> or the file there changed.\<close>

definition file_written :: "os_state \<Rightarrow> os_state \<Rightarrow> string list \<Rightarrow> bool" where
  "file_written st st' q = (is_regular (files st' q) \<and> files st' q \<noteq> files st q)"

text \<open>
  What a write to the absolute path \<open>s\<close> needs: no NUL byte; a file name at the end; no
  regular file among the directories on the way; a target that is no directory, neither
  before nor by the making of the way; a value that can be turned into bytes.
\<close>

definition can_save :: "os_state \<Rightarrow> string \<Rightarrow> pyvalue \<Rightarrow> bool" where
  "can_save st s v =
     (\<not> has_nul s \<and> is_name (last (split_sep s))
      \<and> list_all (\<lambda>q. \<not> is_regular (node_at st q)) (way_of s)
      \<and> place_of s \<notin> set (way_of s)
      \<and> node_at st (place_of s) \<noteq> Some Dir
      \<and> \<not> isl (to_bytes v))"

text \<open>The tree after the write: the file holds the bytes and every place on the way is
  a directory.\<close>

definition saved :: "os_state \<Rightarrow> string \<Rightarrow> bytes \<Rightarrow> os_state" where
  "saved st s data =
     st\<lparr>files := (\<lambda>q. if q = place_of s then Some (File data)
                     else if q \<in> set (way_of s) then Some Dir
                     else files st q)\<rparr>"

text \<open>The claim's reading of the loop over several artifacts: the given files are
  written one after the other, and every write succeeds.\<close>

fun writes_in_order :: "(string \<times> pyvalue) list \<Rightarrow> os_state \<Rightarrow> os_state option" where
  "writes_in_order [] st = Some st"
| "writes_in_order ((path, v) # ws) st =
     (case save_to_disk path v st of
        (Inr u, st1) \<Rightarrow> writes_in_order ws st1
      | (Inl e, st1) \<Rightarrow> None)"

text \<open>The same by the trees alone: every write finds what it needs in the tree the
  writes before it have left.\<close>

fun all_saved :: "(string \<times> pyvalue) list \<Rightarrow> os_state \<Rightarrow> os_state option" where
  "all_saved [] st = Some st"
| "all_saved ((s, v) # ws) st =
     (if can_save st s v then all_saved ws (saved st s (projr (to_bytes v))) else None)"

section \<open>Example inputs\<close>

text \<open>A small tree, \<open>/w\<close> with the file \<open>/w/a.txt\<close> and the directory \<open>/w/sub\<close> in it,
  and a tool working in \<open>/w\<close>.\<close>

definition example_fs :: os_state where
  "example_fs =
     \<lparr>files = [[''w''] \<mapsto> Dir, [''w'', ''a.txt''] \<mapsto> File ''abc'', [''w'', ''sub''] \<mapsto> Dir],
      cwd = []\<rparr>"

definition example_fm :: FileManager where
  "example_fm = \<lparr>workdir = ''/w'', find_input_memory = (\<lambda>n. Inr None)\<rparr>"

text \<open>The content \<open>xyz\<close>, by its code points.\<close>

definition xyz :: pystr where
  "xyz = [120, 121, 122]"

text \<open>A memory with one artifact in the namespace \<open>one\<close>, two in \<open>two\<close> and an artifact
  whose value is an \<open>int\<close> in \<open>odd\<close>, which raises for the namespace \<open>locked\<close>; a tool that finds it under the name \<open>notes\<close>, and a tool
  whose search for a memory raises.\<close>

definition example_memory :: memory where
  "example_memory ns =
     (if ns = ''one'' then Inr [\<lparr>name = ''a'', value = PyStr [65]\<rparr>]
      else if ns = ''two'' then
        Inr [\<lparr>name = ''a'', value = PyStr [65]\<rparr>, \<lparr>name = ''b'', value = PyBytes ''B''\<rparr>]
      else if ns = ''odd'' then Inr [\<lparr>name = ''n'', value = PyOther ''int''\<rparr>]
      else if ns = ''locked'' then Inl (OtherError ''namespace locked'')
      else Inr [])"

definition example_tool :: FileManager where
  "example_tool =
     \<lparr>workdir = ''/w'',
      find_input_memory = (\<lambda>n. if n = ''notes'' then Inr (Some example_memory) else Inr None)\<rparr>"

definition raising_tool :: FileManager where
  "raising_tool =
     \<lparr>workdir = ''/w'', find_input_memory = (\<lambda>n. Inl (OtherError ''memory unavailable''))\<rparr>"

text \<open>A driver whose store is out of reach, one that keeps texts in a list and hands out
  the position as key, a renderer that writes the key after the three names, and one
  that raises.\<close>

definition failing_driver :: "unit text_storage_driver" where
  "failing_driver =
     \<lparr>save = (\<lambda>t d. (Inl (OtherError ''storage unavailable''), d)),
      query_record = (\<lambda>i q d. (Inl (OtherError ''storage unavailable''), d)),
      summarize_record_of = (\<lambda>i d. (Inl (OtherError ''storage unavailable''), d))\<rparr>"

definition list_driver :: "(string list) text_storage_driver" where
  "list_driver =
     \<lparr>save = (\<lambda>t d. (Inr (replicate (length d) CHR ''k''), d @ [t])),
      query_record = (\<lambda>i q d.
        (if length i < length d then Inr (TextArtifact (d ! length i))
         else Inr (ErrorArtifact ''no such record''), d)),
      summarize_record_of = (\<lambda>i d.
        (if length i < length d then Inr (TextArtifact (take 3 (d ! length i)))
         else Inr (ErrorArtifact ''no such record''), d))\<rparr>"

definition example_render :: renderer where
  "example_render storage tool activity key =
     Inr (storage @ '':'' @ tool @ ''.'' @ activity @ ''#'' @ key)"

definition failing_render :: renderer where
  "failing_render storage tool activity key = Inl (OtherError ''template not found'')"

text \<open>The equations that evaluate the model on a given input.\<close>

lemmas path_defs = posix_join_def join_step_def startswith_sep_def endswith_sep_def
  posix_dirname_def rstrip_sep_def Path_str_def path_root_def is_part_def is_name_def sep_def has_nul_def

lemmas os_defs = os_read_file_def os_open_wb_def os_makedirs_def os_stat_def file_write_def
  node_at_def start_dir_def Let_def

lemmas value_defs = to_bytes_def str_encode_def utf8_def utf8_char_def is_surrogate_def
  char_of_def bit_0 xyz_def

lemmas run_defs = save_content_to_file_def save_to_disk_def write_result_def
  example_fm_def example_fs_def

section \<open>Lemmas on paths\<close>

lemma split_sep_not_Nil [simp]: "split_sep s \<noteq> []"
  by (induction s) (auto split: list.splits)

lemma split_sep_append_sep: "split_sep (a @ sep # b) = split_sep a @ split_sep b"
  by (induction a) (auto split: list.splits)

lemma split_sep_no_sep: "sep \<notin> set a \<Longrightarrow> split_sep a = [a]"
  by (induction a) auto

lemma sep_notin_split: "x \<in> set (split_sep s) \<Longrightarrow> sep \<notin> set x"
  by (induction s arbitrary: x) (auto split: list.splits if_splits)

lemma set_split_sep: "x \<in> set (split_sep s) \<Longrightarrow> set x \<subseteq> set s"
proof (induction s arbitrary: x)
  case Nil
  then show ?case by simp
next
  case (Cons c s)
  show ?case
  proof (cases "c = sep")
    case True
    with Cons show ?thesis by auto
  next
    case False
    obtain y ys where y: "split_sep s = y # ys" by (cases "split_sep s") simp_all
    with False Cons.prems have "x = c # y \<or> x \<in> set ys" by auto
    then show ?thesis
    proof
      assume "x = c # y"
      moreover have "set y \<subseteq> set s" using Cons.IH [of y] y by simp
      ultimately show ?thesis by auto
    next
      assume "x \<in> set ys"
      then have "set x \<subseteq> set s" using Cons.IH [of x] y by simp
      then show ?thesis by auto
    qed
  qed
qed

lemma split_sep_join_sep:
  "parts \<noteq> [] \<Longrightarrow> \<forall>x \<in> set parts. sep \<notin> set x \<Longrightarrow> split_sep (join_sep parts) = parts"
proof (induction parts rule: join_sep.induct)
  case 1
  then show ?case by simp
next
  case (2 x)
  then show ?case by (simp add: split_sep_no_sep)
next
  case (3 x y ys)
  then have "split_sep (join_sep (y # ys)) = y # ys" by simp
  moreover have "split_sep x = [x]" using 3 by (simp add: split_sep_no_sep)
  ultimately show ?case by (simp add: split_sep_append_sep)
qed

lemma set_join_sep: "set (join_sep parts) \<subseteq> (\<Union>x \<in> set parts. set x) \<union> {sep}"
  by (induction parts rule: join_sep.induct) auto

lemma names_of_append_sep: "names_of (a @ sep # b) = names_of a @ names_of b"
  by (simp add: names_of_def split_sep_append_sep)

lemma names_of_Nil [simp]: "names_of [] = []"
  by (simp add: names_of_def is_part_def)

lemma endswith_sepD: "endswith_sep a \<Longrightarrow> \<exists>a'. a = a' @ [sep]"
  by (cases a rule: rev_cases) (simp_all add: endswith_sep_def)

lemma names_of_join_step:
  "\<not> startswith_sep b \<Longrightarrow> names_of (join_step w b) = names_of w @ names_of b"
proof (cases "w = [] \<or> endswith_sep w")
  case True
  assume rel: "\<not> startswith_sep b"
  show ?thesis
  proof (cases "w = []")
    case True
    with rel show ?thesis by (simp add: join_step_def)
  next
    case False
    with True obtain a where a: "w = a @ [sep]" using endswith_sepD by blast
    have "names_of w = names_of a" using names_of_append_sep [of a "[]"] a by simp
    moreover have "join_step w b = a @ sep # b" using a rel True by (simp add: join_step_def)
    ultimately show ?thesis by (simp add: names_of_append_sep)
  qed
next
  case False
  assume "\<not> startswith_sep b"
  with False show ?thesis by (simp add: join_step_def names_of_append_sep)
qed

lemma last_split_join_step:
  "\<not> startswith_sep b \<Longrightarrow> last (split_sep (join_step w b)) = last (split_sep b)"
proof (cases "w = [] \<or> endswith_sep w")
  case True
  assume rel: "\<not> startswith_sep b"
  show ?thesis
  proof (cases "w = []")
    case True
    with rel show ?thesis by (simp add: join_step_def)
  next
    case False
    with True obtain a where a: "w = a @ [sep]" using endswith_sepD by blast
    have "join_step w b = a @ sep # b" using a rel True by (simp add: join_step_def)
    then show ?thesis by (simp add: split_sep_append_sep)
  qed
next
  case False
  assume "\<not> startswith_sep b"
  with False show ?thesis by (simp add: join_step_def split_sep_append_sep)
qed

lemma startswith_join_step:
  "\<not> startswith_sep b \<Longrightarrow> startswith_sep (join_step w b) = startswith_sep w"
  by (cases w) (auto simp: join_step_def startswith_sep_def split: list.splits)

lemma join_step_absolute: "startswith_sep b \<Longrightarrow> join_step w b = b"
  by (simp add: join_step_def)

lemma absolute_join_step: "startswith_sep w \<Longrightarrow> startswith_sep (join_step w b)"
  by (cases w) (auto simp: join_step_def startswith_sep_def split: list.splits)

lemma has_nul_join_step: "has_nul (join_step w b) = (if startswith_sep b then has_nul b else has_nul w \<or> has_nul b)"
  by (auto simp: join_step_def has_nul_def sep_def)

lemma filter_keeps_last:
  "xs \<noteq> [] \<Longrightarrow> P (last xs) \<Longrightarrow>
   filter P xs = filter P (butlast xs) @ [last xs]"
  by (cases xs rule: rev_cases) simp_all

lemma last_names_of:
  "is_part (last (split_sep s)) \<Longrightarrow> names_of s \<noteq> [] \<and> last (names_of s) = last (split_sep s)"
  using filter_keeps_last [of "split_sep s" is_part] by (simp add: names_of_def)

lemma butlast_names_of:
  "is_part (last (split_sep s)) \<Longrightarrow>
   filter is_part (butlast (split_sep s)) = butlast (names_of s)"
  using filter_keeps_last [of "split_sep s" is_part] by (simp add: names_of_def)

lemma names_of_no_sep: "x \<in> set (names_of p) \<Longrightarrow> sep \<notin> set x \<and> is_part x"
  by (auto simp: names_of_def dest: sep_notin_split)

lemma split_join_names:
  "names_of p \<noteq> [] \<Longrightarrow> split_sep (join_sep (names_of p)) = names_of p"
  by (rule split_sep_join_sep) (auto dest: names_of_no_sep)

lemma names_of_join_names: "names_of (join_sep (names_of p)) = names_of p"
proof (cases "names_of p = []")
  case True
  then show ?thesis by simp
next
  case False
  then have "split_sep (join_sep (names_of p)) = names_of p" by (rule split_join_names)
  then have "names_of (join_sep (names_of p)) = filter is_part (names_of p)"
    by (simp add: names_of_def)
  also have "\<dots> = names_of p" by (simp add: names_of_def)
  finally show ?thesis .
qed

lemma join_names_relative:
  "names_of p \<noteq> [] \<Longrightarrow> \<not> startswith_sep (join_sep (names_of p))"
proof -
  assume ne: "names_of p \<noteq> []"
  then obtain x xs where x: "names_of p = x # xs" by (cases "names_of p") simp_all
  then have "x \<noteq> [] \<and> sep \<notin> set x" using names_of_no_sep [of x p] by (simp add: is_part_def)
  then obtain c cs where c: "x = c # cs" "c \<noteq> sep" by (cases x) auto
  then have "\<exists>t. join_sep (names_of p) = c # t" using x by (cases xs) simp_all
  with c show ?thesis by (auto simp: startswith_sep_def)
qed

lemma path_root_cases:
  "(\<not> startswith_sep p \<and> path_root p = []) \<or>
   (startswith_sep p \<and> (path_root p = [sep] \<or> path_root p = [sep, sep]))"
  by (cases p) (auto simp: path_root_def startswith_sep_def)

lemma names_of_root_append:
  "r = [sep] \<or> r = [sep, sep] \<Longrightarrow> names_of (r @ x) = names_of x"
  using names_of_append_sep [of "[]" x] names_of_append_sep [of "[]" "sep # x"]
  by auto

lemma last_split_root_append:
  "r = [sep] \<or> r = [sep, sep] \<Longrightarrow> last (split_sep (r @ x)) = last (split_sep x)"
  using split_sep_append_sep [of "[]" x] split_sep_append_sep [of "[]" "sep # x"]
  by auto

text \<open>\<open>Path(p)\<close> names the same place as \<open>p\<close> whenever \<open>p\<close> ends in a component that is
  not empty and not \<open>.\<close>.\<close>

lemma Path_str_same_place:
  assumes "is_part (last (split_sep p))"
  shows "names_of (Path_str p) = names_of p"
    and "last (split_sep (Path_str p)) = last (split_sep p)"
    and "startswith_sep (Path_str p) = startswith_sep p"
proof -
  from assms have ne: "names_of p \<noteq> []" and l: "last (names_of p) = last (split_sep p)"
    using last_names_of by blast+
  have sp: "split_sep (join_sep (names_of p)) = names_of p" using ne by (rule split_join_names)
  have ps: "Path_str p = path_root p @ join_sep (names_of p)"
    using ne by (simp add: Path_str_def names_of_def Let_def)
  show "names_of (Path_str p) = names_of p"
    using path_root_cases [of p] ps names_of_root_append [of "path_root p"]
    by (auto simp: names_of_join_names)
  show "last (split_sep (Path_str p)) = last (split_sep p)"
    using path_root_cases [of p] ps last_split_root_append [of "path_root p"] sp l
    by auto
  show "startswith_sep (Path_str p) = startswith_sep p"
    using path_root_cases [of p] ps join_names_relative [OF ne]
    by (auto simp: startswith_sep_def)
qed

lemma has_nul_Path_str: "has_nul (Path_str p) \<Longrightarrow> has_nul p"
proof -
  assume h: "has_nul (Path_str p)"
  have "set (join_sep (names_of p)) \<subseteq> set p \<union> {sep}"
    using set_join_sep [of "names_of p"] set_split_sep [of _ p]
    by (auto simp: names_of_def)
  moreover have "set (path_root p) \<subseteq> {sep}" by (auto simp: path_root_def)
  ultimately have "set (Path_str p) \<subseteq> set p \<union> {sep, CHR ''.''}"
    by (auto simp: Path_str_def Let_def names_of_def)
  with h show ?thesis by (auto simp: has_nul_def sep_def)
qed

text \<open>The path the loader opens names the same place as the path that was written.\<close>

lemma loader_path_same_place:
  assumes "is_part (last (split_sep (join_step w p)))" and "\<not> has_nul (join_step w p)"
  shows "names_of (join_step w (Path_str p)) = names_of (join_step w p)"
    and "last (split_sep (join_step w (Path_str p))) = last (split_sep (join_step w p))"
    and "startswith_sep (join_step w (Path_str p)) = startswith_sep (join_step w p)"
    and "\<not> has_nul (join_step w (Path_str p))"
proof -
  have lp: "is_part (last (split_sep p))"
    using assms(1) last_split_join_step [of p w] by (cases "startswith_sep p") (simp_all add: join_step_absolute)
  note P = Path_str_same_place [OF lp]
  show "names_of (join_step w (Path_str p)) = names_of (join_step w p)"
    using P by (cases "startswith_sep p") (simp_all add: join_step_absolute names_of_join_step)
  show "last (split_sep (join_step w (Path_str p))) = last (split_sep (join_step w p))"
    using P by (cases "startswith_sep p") (simp_all add: join_step_absolute last_split_join_step)
  show "startswith_sep (join_step w (Path_str p)) = startswith_sep (join_step w p)"
    using P by (cases "startswith_sep p") (simp_all add: join_step_absolute startswith_join_step)
  show "\<not> has_nul (join_step w (Path_str p))"
    using assms(2) P(3) has_nul_Path_str [of p] by (auto simp: has_nul_join_step split: if_splits)
qed

lemma names_of_rstrip: "names_of (rstrip_sep a) = names_of a"
proof (induction a rule: rev_induct)
  case Nil
  show ?case by (simp add: rstrip_sep_def)
next
  case (snoc x xs)
  show ?case
  proof (cases "x = sep")
    case True
    then have "rstrip_sep (xs @ [x]) = rstrip_sep xs" by (simp add: rstrip_sep_def)
    moreover have "names_of (xs @ [x]) = names_of xs"
      using True names_of_append_sep [of xs "[]"] by simp
    ultimately show ?thesis using snoc by simp
  next
    case False
    then show ?thesis by (simp add: rstrip_sep_def)
  qed
qed

lemma rstrip_keeps_head:
  "\<not> list_all (\<lambda>c. c = sep) a \<Longrightarrow> rstrip_sep a \<noteq> [] \<and> hd (rstrip_sep a) = hd a"
proof (induction a rule: rev_induct)
  case Nil
  then show ?case by simp
next
  case (snoc x xs)
  show ?case
  proof (cases "x = sep")
    case True
    with snoc.prems have n: "\<not> list_all (\<lambda>c. c = sep) xs" by simp
    then have "xs \<noteq> []" by auto
    moreover have "rstrip_sep (xs @ [x]) = rstrip_sep xs" using True by (simp add: rstrip_sep_def)
    ultimately show ?thesis using snoc.IH [OF n] by simp
  next
    case False
    then show ?thesis by (simp add: rstrip_sep_def)
  qed
qed

lemma dirname_head:
  assumes "sep \<notin> set b"
  shows "rev (dropWhile (\<lambda>c. c \<noteq> sep) (rev (a @ sep # b))) = a @ [sep]"
proof -
  have "dropWhile (\<lambda>c. c \<noteq> sep) (rev b @ sep # rev a)
      = dropWhile (\<lambda>c. c \<noteq> sep) (sep # rev a)"
    using assms by (intro dropWhile_append2) auto
  then show ?thesis by simp
qed

lemma dirname_no_sep: "sep \<notin> set s \<Longrightarrow> posix_dirname s = []"
proof -
  assume "sep \<notin> set s"
  then have "dropWhile (\<lambda>c. c \<noteq> sep) (rev s) = []" by auto
  then show ?thesis by (simp add: posix_dirname_def)
qed

lemma dirname_last_sep:
  assumes "sep \<notin> set b"
  shows "posix_dirname (a @ sep # b)
     = (if list_all (\<lambda>c. c = sep) a then a @ [sep] else rstrip_sep a)"
proof -
  have h: "rev (dropWhile (\<lambda>c. c \<noteq> sep) (rev (a @ sep # b))) = a @ [sep]"
    using assms by (rule dirname_head)
  have r: "rstrip_sep (a @ [sep]) = rstrip_sep a" by (simp add: rstrip_sep_def)
  show ?thesis unfolding posix_dirname_def h Let_def using r by simp
qed

text \<open>\<open>dirname\<close> names the place of everything before the last component.\<close>

lemma names_of_dirname:
  "names_of (posix_dirname s) = filter is_part (butlast (split_sep s))"
proof (cases "sep \<in> set s")
  case False
  then show ?thesis by (simp add: dirname_no_sep split_sep_no_sep)
next
  case True
  then obtain a b where s: "s = a @ sep # b" and b: "sep \<notin> set b"
    using split_list_last [of sep s] by blast
  have "butlast (split_sep s) = split_sep a"
    using s b by (simp add: split_sep_append_sep split_sep_no_sep)
  moreover have "names_of (posix_dirname s) = names_of a"
    using s b names_of_append_sep [of a "[]"] by (simp add: dirname_last_sep names_of_rstrip)
  ultimately show ?thesis by (simp add: names_of_def)
qed

lemma dirname_absolute:
  assumes "startswith_sep s"
  shows "posix_dirname s \<noteq> [] \<and> startswith_sep (posix_dirname s)"
proof -
  from assms obtain t where t: "s = sep # t" by (cases s) (auto simp: startswith_sep_def)
  then have "sep \<in> set s" by simp
  then obtain a b where s: "s = a @ sep # b" and b: "sep \<notin> set b"
    using split_list_last [of sep s] by blast
  show ?thesis
  proof (cases "list_all (\<lambda>c. c = sep) a")
    case True
    then have "posix_dirname s = a @ [sep]" using s b by (simp add: dirname_last_sep)
    moreover have "hd (a @ [sep]) = sep" using True by (cases a) simp_all
    ultimately show ?thesis by (cases "a @ [sep]") (auto simp: startswith_sep_def)
  next
    case False
    then have d: "posix_dirname s = rstrip_sep a" using s b by (simp add: dirname_last_sep)
    from False have "a \<noteq> []" by auto
    with s t have "hd a = sep" by (cases a) simp_all
    with rstrip_keeps_head [OF False] d show ?thesis
      by (cases "rstrip_sep a") (auto simp: startswith_sep_def)
  qed
qed

lemma resolve_append: "resolve cur (a @ b) = resolve (resolve cur a) b"
  by (induction a arbitrary: cur) simp_all

lemma set_rstrip_sep: "set (rstrip_sep a) \<subseteq> set a"
  by (auto simp: rstrip_sep_def dest: set_dropWhileD)

lemma set_posix_dirname: "set (posix_dirname s) \<subseteq> set s"
proof -
  have "set (rev (dropWhile (\<lambda>c. c \<noteq> sep) (rev s))) \<subseteq> set s"
    by (auto dest: set_dropWhileD)
  with set_rstrip_sep [of "rev (dropWhile (\<lambda>c. c \<noteq> sep) (rev s))"] show ?thesis
    by (auto simp: posix_dirname_def Let_def)
qed

lemma dirname_names_no_nul:
  "\<not> has_nul s \<Longrightarrow> c \<in> set (split_sep (posix_dirname s)) \<Longrightarrow> \<not> has_nul c"
  using set_split_sep [of c "posix_dirname s"] set_posix_dirname [of s]
  by (auto simp: has_nul_def)

lemma resolve_last: "l \<noteq> ''..'' \<Longrightarrow> resolve cur (ns @ [l]) = resolve cur ns @ [l]"
  by (simp add: resolve_append)

lemma place_of_last:
  assumes "is_name (last (split_sep s))"
  shows "place_of s = resolve [] (dir_names s) @ [last (split_sep s)]"
proof -
  from assms have p: "is_part (last (split_sep s))" and d: "last (split_sep s) \<noteq> ''..''"
    by (simp_all add: is_name_def)
  from p have "names_of s = dir_names s @ [last (split_sep s)]"
    using filter_keeps_last [of "split_sep s" is_part] by (simp add: names_of_def dir_names_def)
  with d show ?thesis by (simp add: place_of_def resolve_last)
qed

lemma resolve_inside:
  "inside (length x) ns \<Longrightarrow> resolve (cur @ x) ns = cur @ resolve x ns"
proof (induction ns arbitrary: x)
  case Nil
  show ?case by simp
next
  case (Cons c cs)
  show ?case
  proof (cases "c = ''..''")
    case True
    with Cons.prems have x: "x \<noteq> []" and i: "inside (length (butlast x)) cs" by simp_all
    from x have "butlast (cur @ x) = cur @ butlast x" by (simp add: butlast_append)
    with Cons.IH [OF i] True show ?thesis by simp
  next
    case False
    with Cons.prems have "inside (length (x @ [c])) cs" by simp
    from Cons.IH [OF this] False show ?thesis by simp
  qed
qed

section \<open>Lemmas on the file system\<close>

lemma walk_parts:
  "(walk st p cur (filter is_part cs) = Inr q) = (walk st p' cur cs = Inr q)"
proof (induction cs arbitrary: cur)
  case Nil
  show ?case by simp
next
  case (Cons c cs)
  show ?case
  proof (cases "is_part c")
    case False
    then show ?thesis using Cons [of cur] by simp
  next
    case True
    show ?thesis
    proof (cases "c = ''..''")
      case True
      then show ?thesis using Cons [of "butlast cur"] \<open>is_part c\<close> by simp
    next
      case False
      then show ?thesis using Cons [of "cur @ [c]"] \<open>is_part c\<close>
        by (simp split: option.splits node.splits)
    qed
  qed
qed

lemma walk_keeps_dirs:
  "walk st p cur cs = Inr q \<Longrightarrow>
   (\<And>x. node_at st x = Some Dir \<Longrightarrow> node_at st' x = Some Dir) \<Longrightarrow>
   walk st' p' cur cs = Inr q"
proof (induction cs arbitrary: cur)
  case Nil
  then show ?case by simp
next
  case (Cons c cs)
  show ?case
  proof (cases "is_part c \<and> c \<noteq> ''..''")
    case False
    then show ?thesis using Cons.IH Cons.prems by (auto split: if_splits)
  next
    case True
    with Cons.prems(1) have d: "node_at st (cur @ [c]) = Some Dir"
      and w: "walk st p (cur @ [c]) cs = Inr q"
      by (auto split: option.splits node.splits)
    from d have "node_at st' (cur @ [c]) = Some Dir" by (rule Cons.prems(2))
    moreover from w have "walk st' p' (cur @ [c]) cs = Inr q"
      using Cons.IH Cons.prems(2) by blast
    ultimately show ?thesis using True by simp
  qed
qed

lemma walk_resolve: "walk st p cur cs = Inr q \<Longrightarrow> q = resolve cur (filter is_part cs)"
proof (induction cs arbitrary: cur)
  case Nil
  then show ?case by simp
next
  case (Cons c cs)
  then show ?case by (auto split: if_splits option.splits node.splits)
qed

lemma read_same_place:
  assumes r: "os_read_file st s = Inr b"
    and n: "names_of s' = names_of s"
    and l: "last (split_sep s') = last (split_sep s)"
    and a: "startswith_sep s' = startswith_sep s"
    and z: "\<not> has_nul s'"
  shows "os_read_file st s' = Inr b"
proof -
  from r have nn: "\<not> has_nul s" and ne: "s \<noteq> []"
    by (auto simp: os_read_file_def split: if_splits)
  from r nn ne obtain d where
    w: "walk st s (start_dir st s) (butlast (split_sep s)) = Inr d"
    by (cases "walk st s (start_dir st s) (butlast (split_sep s))")
       (auto simp: os_read_file_def)
  let ?l = "last (split_sep s)"
  from r nn ne w have nm: "is_name ?l" and f: "node_at st (d @ [?l]) = Some (File b)"
    by (auto simp: os_read_file_def Let_def split: if_splits option.splits node.splits)
  from nm have pl: "is_part ?l" by (simp add: is_name_def)
  then have "names_of s \<noteq> []" using last_names_of by blast
  with n have ne': "s' \<noteq> []" by auto
  have "filter is_part (butlast (split_sep s')) = filter is_part (butlast (split_sep s))"
    using pl l n by (simp add: butlast_names_of)
  moreover from w have "walk st s' (start_dir st s) (filter is_part (butlast (split_sep s))) = Inr d"
    by (simp add: walk_parts [of st s' _ _ d s])
  ultimately have "walk st s' (start_dir st s) (butlast (split_sep s')) = Inr d"
    by (simp add: walk_parts [of st s' _ "butlast (split_sep s')" d s', symmetric])
  moreover have "start_dir st s' = start_dir st s" using a by (simp add: start_dir_def)
  ultimately show ?thesis using z ne' nm f l by (simp add: os_read_file_def Let_def)
qed

lemma walk_visits:
  "\<forall>q \<in> set (visits cur (filter is_part cs)). node_at st q = Some Dir \<Longrightarrow>
   walk st p cur cs = Inr (resolve cur (filter is_part cs))"
proof (induction cs arbitrary: cur)
  case Nil
  show ?case by simp
next
  case (Cons c cs)
  then show ?case by (cases "is_part c"; cases "c = ''..''") simp_all
qed

lemma walk_needs:
  "walk st p cur cs = Inr d \<Longrightarrow>
   \<forall>q \<in> set (visits cur (filter is_part cs)). node_at st q = Some Dir"
proof (induction cs arbitrary: cur)
  case Nil
  show ?case by simp
next
  case (Cons c cs)
  show ?case
  proof (cases "is_part c \<and> c \<noteq> ''..''")
    case False
    then show ?thesis using Cons.IH Cons.prems by (auto split: if_splits)
  next
    case True
    with Cons.prems have d: "node_at st (cur @ [c]) = Some Dir"
      and w: "walk st p (cur @ [c]) cs = Inr d"
      by (auto split: option.splits node.splits)
    from Cons.IH [OF w] d True show ?thesis by simp
  qed
qed

lemma mkdirs_files:
  "mkdirs st p seen cur cs = (r, st') \<Longrightarrow>
   cwd st' = cwd st \<and> (files st' x = files st x \<or> (files st x = None \<and> files st' x = Some Dir))"
proof (induction cs arbitrary: st seen cur)
  case Nil
  then show ?case by simp
next
  case (Cons c cs)
  show ?case
  proof (cases "is_part c \<and> c \<noteq> ''..'' \<and> \<not> has_nul c")
    case False
    then show ?thesis using Cons.IH Cons.prems by (auto split: if_splits)
  next
    case True
    show ?thesis
    proof (cases "node_at st (cur @ [c])")
      case None
      let ?st1 = "st\<lparr>files := (files st)(cur @ [c] \<mapsto> Dir)\<rparr>"
      from None True Cons.prems have "mkdirs ?st1 p (seen @ [c]) (cur @ [c]) cs = (r, st')" by simp
      from Cons.IH [OF this] None show ?thesis
        by (auto simp: node_at_def split: if_splits)
    next
      case (Some n)
      show ?thesis
      proof (cases n)
        case Dir
        with Some True Cons.prems have "mkdirs st p (seen @ [c]) (cur @ [c]) cs = (r, st')" by simp
        from Cons.IH [OF this] show ?thesis .
      next
        case (File b)
        with Some True Cons.prems have "st' = st" by (auto split: list.splits if_splits)
        then show ?thesis by simp
      qed
    qed
  qed
qed

lemma makedirs_files:
  "os_makedirs st p = (r, st') \<Longrightarrow>
   cwd st' = cwd st \<and> (files st' x = files st x \<or> (files st x = None \<and> files st' x = Some Dir))"
  using mkdirs_files [of st p "[]" "start_dir st p" "split_sep p" r st' x]
  by (auto simp: os_makedirs_def split: if_splits)

lemma makedirs_keeps_dirs:
  "os_makedirs st p = (r, st') \<Longrightarrow> node_at st x = Some Dir \<Longrightarrow> node_at st' x = Some Dir"
  using makedirs_files [of st p r st' x] by (auto simp: node_at_def split: if_splits)

lemma mkdirs_ok:
  assumes "\<forall>c \<in> set cs. is_name c \<longrightarrow> \<not> has_nul c"
    and "\<forall>q \<in> set (visits cur (filter is_part cs)). \<not> is_regular (node_at st q)"
  shows "mkdirs st p seen cur cs
     = (Inr (), st\<lparr>files := (\<lambda>q. if q \<in> set (visits cur (filter is_part cs)) then Some Dir
                                  else files st q)\<rparr>)"
  using assms
proof (induction cs arbitrary: st seen cur)
  case Nil
  show ?case by simp
next
  case (Cons c cs)
  show ?case
  proof (cases "is_part c \<and> c \<noteq> ''..''")
    case False
    then show ?thesis using Cons.IH Cons.prems by (cases "is_part c") simp_all
  next
    case True
    then have c: "is_part c" "c \<noteq> ''..''" "\<not> has_nul c"
      using Cons.prems(1) by (simp_all add: is_name_def)
    let ?here = "cur @ [c]"
    let ?V = "set (visits ?here (filter is_part cs))"
    let ?st1 = "st\<lparr>files := (files st)(?here \<mapsto> Dir)\<rparr>"
    have names: "\<forall>c \<in> set cs. is_name c \<longrightarrow> \<not> has_nul c" using Cons.prems(1) by simp
    have here: "\<not> is_regular (node_at st ?here)" using Cons.prems(2) c by simp
    have way0: "\<forall>q \<in> ?V. \<not> is_regular (node_at st q)" using Cons.prems(2) c by simp
    have way1: "\<forall>q \<in> ?V. \<not> is_regular (node_at ?st1 q)"
      using way0 by (auto simp: node_at_def is_regular_def)
    show ?thesis
    proof (cases "node_at st ?here")
      case None
      have "mkdirs st p seen cur (c # cs) = mkdirs ?st1 p (seen @ [c]) ?here cs"
        using None c by simp
      also have "\<dots> = (Inr (), ?st1\<lparr>files := (\<lambda>q. if q \<in> ?V then Some Dir else files ?st1 q)\<rparr>)"
        using names way1 by (rule Cons.IH)
      also have "(\<lambda>q. if q \<in> ?V then Some Dir else files ?st1 q)
         = (\<lambda>q. if q \<in> set (visits cur (filter is_part (c # cs))) then Some Dir else files st q)"
        using c by (auto simp: fun_eq_iff)
      finally show ?thesis by simp
    next
      case (Some n)
      with here have d: "node_at st ?here = Some Dir" by (cases n) (auto simp: is_regular_def)
      then have fd: "files st ?here = Some Dir" by (simp add: node_at_def)
      have "mkdirs st p seen cur (c # cs) = mkdirs st p (seen @ [c]) ?here cs"
        using d c by simp
      also have "\<dots> = (Inr (), st\<lparr>files := (\<lambda>q. if q \<in> ?V then Some Dir else files st q)\<rparr>)"
        using names way0 by (rule Cons.IH)
      also have "(\<lambda>q. if q \<in> ?V then Some Dir else files st q)
         = (\<lambda>q. if q \<in> set (visits cur (filter is_part (c # cs))) then Some Dir else files st q)"
        using c fd by (auto simp: fun_eq_iff)
      finally show ?thesis by simp
    qed
  qed
qed

lemma mkdirs_needs:
  "mkdirs st p seen cur cs = (Inr u, st') \<Longrightarrow>
   (\<forall>c \<in> set cs. is_name c \<longrightarrow> \<not> has_nul c)
   \<and> (\<forall>q \<in> set (visits cur (filter is_part cs)). \<not> is_regular (node_at st q))"
proof (induction cs arbitrary: st seen cur)
  case Nil
  show ?case by simp
next
  case (Cons c cs)
  show ?case
  proof (cases "is_part c \<and> c \<noteq> ''..''")
    case False
    then show ?thesis using Cons.IH Cons.prems
      by (cases "is_part c") (auto simp: is_name_def)
  next
    case True
    with Cons.prems have nn: "\<not> has_nul c" by (auto split: if_splits)
    let ?here = "cur @ [c]"
    let ?st1 = "st\<lparr>files := (files st)(?here \<mapsto> Dir)\<rparr>"
    show ?thesis
    proof (cases "node_at st ?here")
      case None
      with True nn Cons.prems have m: "mkdirs ?st1 p (seen @ [c]) ?here cs = (Inr u, st')" by simp
      from Cons.IH [OF m] have n: "\<forall>c \<in> set cs. is_name c \<longrightarrow> \<not> has_nul c"
        and w: "\<forall>q \<in> set (visits ?here (filter is_part cs)). \<not> is_regular (node_at ?st1 q)"
        by simp_all
      have "\<forall>q \<in> set (visits ?here (filter is_part cs)). \<not> is_regular (node_at st q)"
      proof
        fix q assume "q \<in> set (visits ?here (filter is_part cs))"
        with w have "\<not> is_regular (node_at ?st1 q)" by blast
        with None show "\<not> is_regular (node_at st q)"
          by (cases "q = ?here") (auto simp: node_at_def is_regular_def)
      qed
      with n None nn True show ?thesis by (simp add: is_regular_def)
    next
      case (Some n)
      show ?thesis
      proof (cases n)
        case Dir
        with Some True nn Cons.prems have m: "mkdirs st p (seen @ [c]) ?here cs = (Inr u, st')"
          by simp
        from Cons.IH [OF m] Some Dir nn True show ?thesis by (simp add: is_regular_def)
      next
        case (File b)
        with Some True nn Cons.prems show ?thesis by (auto split: list.splits if_splits)
      qed
    qed
  qed
qed

lemma makedirs_way:
  assumes "startswith_sep s"
  shows "os_makedirs st (posix_dirname s)
     = mkdirs st (posix_dirname s) [] [] (split_sep (posix_dirname s))"
    and "filter is_part (split_sep (posix_dirname s)) = dir_names s"
proof -
  from dirname_absolute [OF assms]
  show "os_makedirs st (posix_dirname s)
     = mkdirs st (posix_dirname s) [] [] (split_sep (posix_dirname s))"
    by (simp add: os_makedirs_def start_dir_def)
  from names_of_dirname [of s]
  show "filter is_part (split_sep (posix_dirname s)) = dir_names s"
    by (simp add: names_of_def dir_names_def)
qed

lemma open_wb_result:
  assumes "os_open_wb st s = (Inr f, st')"
  shows "\<not> has_nul s \<and> s \<noteq> [] \<and> is_name (last (split_sep s))
     \<and> walk st s (start_dir st s) (butlast (split_sep s)) = Inr (butlast f)
     \<and> f = butlast f @ [last (split_sep s)]
     \<and> node_at st f \<noteq> Some Dir
     \<and> st' = st\<lparr>files := (files st)(f \<mapsto> File [])\<rparr>"
proof -
  from assms have nn: "\<not> has_nul s" and ne: "s \<noteq> []"
    by (auto simp: os_open_wb_def split: if_splits)
  from assms nn ne obtain d where
    w: "walk st s (start_dir st s) (butlast (split_sep s)) = Inr d"
    by (cases "walk st s (start_dir st s) (butlast (split_sep s))")
       (auto simp: os_open_wb_def)
  let ?l = "last (split_sep s)"
  from assms nn ne w have "is_name ?l" and "f = d @ [?l]" and "node_at st (d @ [?l]) \<noteq> Some Dir"
    and "st' = st\<lparr>files := (files st)(d @ [?l] \<mapsto> File [])\<rparr>"
    by (auto simp: os_open_wb_def Let_def split: if_splits option.splits node.splits)
  with nn ne w show ?thesis by simp
qed

lemma open_wb_failure: "os_open_wb st s = (Inl e, st') \<Longrightarrow> st' = st"
  by (auto simp: os_open_wb_def Let_def split: if_splits sum.splits option.splits node.splits)

lemma open_wb_ok:
  assumes "startswith_sep s" and "\<not> has_nul s" and "is_name (last (split_sep s))"
    and "\<forall>q \<in> set (way_of s). node_at st q = Some Dir"
    and "node_at st (place_of s) \<noteq> Some Dir"
  shows "os_open_wb st s
     = (Inr (place_of s), st\<lparr>files := (files st)(place_of s \<mapsto> File [])\<rparr>)"
proof -
  from assms(1) have ne: "s \<noteq> []" by (auto simp: startswith_sep_def)
  have "walk st s [] (butlast (split_sep s)) = Inr (resolve [] (dir_names s))"
    using assms(4) walk_visits [of "[]" "butlast (split_sep s)" st s]
    by (simp add: way_of_def dir_names_def)
  moreover have "place_of s = resolve [] (dir_names s) @ [last (split_sep s)]"
    using assms(3) by (rule place_of_last)
  ultimately show ?thesis using assms ne
    by (auto simp: os_open_wb_def Let_def start_dir_def split: option.splits node.splits)
qed

lemma open_wb_needs:
  assumes "os_open_wb st s = (Inr f, st')" and "startswith_sep s"
  shows "\<not> has_nul s \<and> is_name (last (split_sep s))
     \<and> (\<forall>q \<in> set (way_of s). node_at st q = Some Dir)
     \<and> f = place_of s \<and> node_at st (place_of s) \<noteq> Some Dir"
proof -
  note r = open_wb_result [OF assms(1)]
  from r assms(2) have w: "walk st s [] (butlast (split_sep s)) = Inr (butlast f)"
    by (simp add: start_dir_def)
  from walk_needs [OF w] have way: "\<forall>q \<in> set (way_of s). node_at st q = Some Dir"
    by (simp add: way_of_def dir_names_def)
  from walk_resolve [OF w] have "butlast f = resolve [] (dir_names s)"
    by (simp add: dir_names_def)
  with r place_of_last [of s] have "f = place_of s" by simp
  with r way show ?thesis by simp
qed

lemma read_is_file: "os_read_file st p = Inr b \<Longrightarrow> os_stat st p = Inr (File b)"
  by (auto simp: os_read_file_def os_stat_def Let_def is_name_def
      split: if_splits sum.splits option.splits node.splits)

lemma stat_not_found:
  "os_stat st p = Inl (FileNotFoundError x) \<Longrightarrow> os_read_file st p = Inl (FileNotFoundError x)"
  by (auto simp: os_read_file_def os_stat_def Let_def is_name_def
      split: if_splits sum.splits option.splits node.splits)

section \<open>Lemmas on the activities\<close>

lemma save_to_disk_ok:
  assumes ab: "startswith_sep s" and cs: "can_save st s v"
  shows "save_to_disk s v st = (Inr (), saved st s (projr (to_bytes v)))"
proof -
  let ?way = "set (way_of s)"
  let ?st1 = "st\<lparr>files := (\<lambda>q. if q \<in> ?way then Some Dir else files st q)\<rparr>"
  from cs have nn: "\<not> has_nul s" and nm: "is_name (last (split_sep s))"
    and free: "\<forall>q \<in> ?way. \<not> is_regular (node_at st q)"
    and off: "place_of s \<notin> ?way" and nd: "node_at st (place_of s) \<noteq> Some Dir"
    and enc: "\<not> isl (to_bytes v)"
    by (simp_all add: can_save_def list_all_iff)
  have names: "\<forall>c \<in> set (split_sep (posix_dirname s)). is_name c \<longrightarrow> \<not> has_nul c"
    using dirname_names_no_nul [OF nn] by blast
  have m: "os_makedirs st (posix_dirname s) = (Inr (), ?st1)"
    using mkdirs_ok [of "split_sep (posix_dirname s)" "[]" st "posix_dirname s" "[]"]
      names free makedirs_way(1) [OF ab, of st] makedirs_way(2) [OF ab]
    by (simp add: way_of_def)
  have "\<forall>q \<in> ?way. node_at ?st1 q = Some Dir" by (simp add: node_at_def)
  moreover have "node_at ?st1 (place_of s) \<noteq> Some Dir"
    using off nd by (auto simp: node_at_def split: if_splits)
  ultimately have o: "os_open_wb ?st1 s
     = (Inr (place_of s), ?st1\<lparr>files := (files ?st1)(place_of s \<mapsto> File [])\<rparr>)"
    using ab nn nm by (intro open_wb_ok)
  from enc obtain data where d: "to_bytes v = Inr data" by (cases "to_bytes v") simp_all
  have "(\<lambda>q. if q \<in> ?way then Some Dir else files st q)(place_of s \<mapsto> File [], place_of s \<mapsto> File data)
     = (\<lambda>q. if q = place_of s then Some (File data) else if q \<in> ?way then Some Dir else files st q)"
    by (auto simp: fun_eq_iff)
  with m o d show ?thesis by (simp add: save_to_disk_def file_write_def saved_def)
qed

lemma save_to_disk_needs:
  assumes ab: "startswith_sep s" and sv: "save_to_disk s v st = (Inr u, st')"
  shows "can_save st s v"
proof -
  let ?way = "set (way_of s)"
  let ?st1 = "st\<lparr>files := (\<lambda>q. if q \<in> ?way then Some Dir else files st q)\<rparr>"
  from sv obtain u1 st1 f st2 data where m: "os_makedirs st (posix_dirname s) = (Inr u1, st1)"
    and o: "os_open_wb st1 s = (Inr f, st2)" and d: "to_bytes v = Inr data"
    by (auto simp: save_to_disk_def split: prod.splits sum.splits)
  from m have mk: "mkdirs st (posix_dirname s) [] [] (split_sep (posix_dirname s)) = (Inr u1, st1)"
    using makedirs_way(1) [OF ab, of st] by simp
  note need = mkdirs_needs [OF mk]
  from need have free: "\<forall>q \<in> ?way. \<not> is_regular (node_at st q)"
    using makedirs_way(2) [OF ab] by (simp add: way_of_def)
  from need have "mkdirs st (posix_dirname s) [] [] (split_sep (posix_dirname s)) = (Inr (), ?st1)"
    using mkdirs_ok [of "split_sep (posix_dirname s)" "[]" st "posix_dirname s" "[]"]
      makedirs_way(2) [OF ab]
    by (simp add: way_of_def)
  with mk have st1: "st1 = ?st1" by simp
  from open_wb_needs [OF o ab] have nn: "\<not> has_nul s" and nm: "is_name (last (split_sep s))"
    and nd1: "node_at st1 (place_of s) \<noteq> Some Dir"
    by simp_all
  from nm have ne: "place_of s \<noteq> []" by (simp add: place_of_last)
  from nd1 st1 ne have off: "place_of s \<notin> ?way" by (auto simp: node_at_def)
  with nd1 st1 ne have nd: "node_at st (place_of s) \<noteq> Some Dir" by (simp add: node_at_def)
  from nn nm free off nd d show ?thesis by (simp add: can_save_def list_all_iff)
qed

lemma save_to_disk_fails:
  assumes "startswith_sep s" and "\<not> can_save st s v"
  shows "\<exists>e st'. save_to_disk s v st = (Inl e, st')"
proof (cases "save_to_disk s v st")
  case (Pair r st')
  show ?thesis
  proof (cases r)
    case (Inl e)
    with Pair show ?thesis by blast
  next
    case (Inr u)
    with Pair assms save_to_disk_needs [of s v st u st'] show ?thesis by simp
  qed
qed

lemma save_to_disk_then_read:
  assumes "save_to_disk s v st = (Inr u, st')"
  shows "os_read_file st' s = to_bytes v"
proof -
  from assms obtain u1 st1 f st2 data where m: "os_makedirs st (posix_dirname s) = (Inr u1, st1)"
    and o: "os_open_wb st1 s = (Inr f, st2)" and d: "to_bytes v = Inr data"
    and st': "st' = file_write st2 f data"
    by (auto simp: save_to_disk_def split: prod.splits sum.splits)
  note r = open_wb_result [OF o]
  let ?l = "last (split_sep s)"
  from r have w: "walk st1 s (start_dir st1 s) (butlast (split_sep s)) = Inr (butlast f)"
    and f: "f = butlast f @ [?l]" and nd: "node_at st1 f \<noteq> Some Dir"
    and st2: "st2 = st1\<lparr>files := (files st1)(f \<mapsto> File [])\<rparr>"
    by simp_all
  have keep: "\<And>x. node_at st1 x = Some Dir \<Longrightarrow> node_at st' x = Some Dir"
    using nd st' st2 by (auto simp: node_at_def file_write_def split: if_splits)
  have "walk st' s (start_dir st1 s) (butlast (split_sep s)) = Inr (butlast f)"
    using w keep by (rule walk_keeps_dirs)
  moreover have "start_dir st' s = start_dir st1 s"
    using st' st2 by (simp add: start_dir_def file_write_def)
  moreover from f have "f \<noteq> []" by auto
  then have "node_at st' f = Some (File data)"
    using st' st2 by (simp add: node_at_def file_write_def)
  then have "node_at st' (butlast f @ [?l]) = Some (File data)" using f by simp
  ultimately show ?thesis using r d by (simp add: os_read_file_def Let_def)
qed

lemma save_to_disk_names_file:
  "save_to_disk s v st = (Inr u, st') \<Longrightarrow> is_name (last (split_sep s)) \<and> \<not> has_nul s"
  by (auto simp: save_to_disk_def split: prod.splits sum.splits dest: open_wb_result)

lemma save_to_disk_encodes:
  "save_to_disk s v st = (Inr u, st') \<Longrightarrow> \<exists>data. to_bytes v = Inr data"
  by (auto simp: save_to_disk_def split: prod.splits sum.splits)

lemma save_to_disk_writes:
  assumes sv: "save_to_disk s v st = (r, st')" and ab: "startswith_sep s"
    and fw: "file_written st st' q"
  shows "q = place_of s"
proof -
  obtain r1 st1 where m: "os_makedirs st (posix_dirname s) = (r1, st1)"
    by (cases "os_makedirs st (posix_dirname s)")
  have keep: "files st1 q = files st q \<or> (files st q = None \<and> files st1 q = Some Dir)"
    using makedirs_files [OF m] by simp
  have none: "st' = st1 \<Longrightarrow> False"
    using keep fw by (auto simp: file_written_def is_regular_def)
  show ?thesis
  proof (cases r1)
    case (Inl e)
    with m sv have "st' = st1" by (simp add: save_to_disk_def)
    with none show ?thesis by simp
  next
    case (Inr u)
    obtain r2 st2 where o: "os_open_wb st1 s = (r2, st2)" by (cases "os_open_wb st1 s")
    show ?thesis
    proof (cases r2)
      case (Inl e)
      with o have "st2 = st1" using open_wb_failure by blast
      with m o Inr Inl sv have "st' = st1" by (simp add: save_to_disk_def)
      with none show ?thesis by simp
    next
      case (Inr f)
      with o have o': "os_open_wb st1 s = (Inr f, st2)" by simp
      from open_wb_needs [OF o' ab] have f: "f = place_of s" by simp
      from open_wb_result [OF o'] have st2: "st2 = st1\<lparr>files := (files st1)(f \<mapsto> File [])\<rparr>"
        by simp
      have "q = f"
      proof (rule ccontr)
        assume "q \<noteq> f"
        with m o' \<open>r1 = Inr u\<close> sv st2 have "files st' q = files st1 q"
          by (auto simp: save_to_disk_def file_write_def split: sum.splits)
        with keep fw show False by (auto simp: file_written_def is_regular_def)
      qed
      with f show ?thesis by simp
    qed
  qed
qed

lemma file_written_trans:
  "file_written st st2 q \<Longrightarrow> file_written st st1 q \<or> file_written st1 st2 q"
  by (auto simp: file_written_def)

lemma names_of_posix_join:
  "list_all (\<lambda>p. \<not> startswith_sep p) ps \<Longrightarrow>
   names_of (posix_join w ps) = names_of w @ concat (map names_of ps)"
proof (induction ps arbitrary: w)
  case Nil
  show ?case by (simp add: posix_join_def)
next
  case (Cons p ps)
  from Cons.prems have "names_of (posix_join (join_step w p) ps)
     = names_of (join_step w p) @ concat (map names_of ps)"
    by (intro Cons.IH) simp
  with Cons.prems show ?case by (simp add: posix_join_def names_of_join_step)
qed

lemma absolute_posix_join: "startswith_sep w \<Longrightarrow> startswith_sep (posix_join w ps)"
proof (induction ps arbitrary: w)
  case Nil
  then show ?case by (simp add: posix_join_def)
next
  case (Cons p ps)
  from Cons.IH [of "join_step w p"] Cons.prems show ?case
    by (simp add: posix_join_def absolute_join_step)
qed

lemma place_inside:
  assumes si: "stays_inside ps" and nm: "is_name (last (split_sep (posix_join w ps)))"
    and ne: "ps \<noteq> []"
  shows "place_of (posix_join w ps) = place_of w @ resolve [] (concat (map names_of ps))"
    and "strict_prefix (place_of w) (place_of (posix_join w ps))"
proof -
  let ?N = "concat (map names_of ps)"
  let ?l = "last (split_sep (posix_join w ps))"
  from si have rel: "list_all (\<lambda>p. \<not> startswith_sep p) ps" and ins: "inside 0 ?N"
    by (simp_all add: stays_inside_def)
  have n: "names_of (posix_join w ps) = names_of w @ ?N"
    using rel by (rule names_of_posix_join)
  have "resolve (place_of w @ []) ?N = place_of w @ resolve [] ?N"
    using ins by (intro resolve_inside) simp
  with n show p: "place_of (posix_join w ps) = place_of w @ resolve [] ?N"
    by (simp add: place_of_def resolve_append)
  from ne obtain qs f where ps: "ps = qs @ [f]" by (cases ps rule: rev_cases) auto
  with rel have f: "\<not> startswith_sep f" by simp
  have "posix_join w ps = join_step (posix_join w qs) f" using ps by (simp add: posix_join_def)
  with f have "?l = last (split_sep f)" by (simp add: last_split_join_step)
  with nm have lf: "is_part (last (split_sep f))" and dd: "last (split_sep f) \<noteq> ''..''"
    by (simp_all add: is_name_def)
  from lf have "names_of f = butlast (names_of f) @ [last (split_sep f)]"
    using last_names_of [of f] by (metis append_butlast_last_id)
  then have "?N = (concat (map names_of qs) @ butlast (names_of f)) @ [last (split_sep f)]"
    using ps by simp
  then have "resolve [] ?N
     = resolve [] (concat (map names_of qs) @ butlast (names_of f)) @ [last (split_sep f)]"
    using dd resolve_last by metis
  then have "resolve [] ?N \<noteq> []" by simp
  with p show "strict_prefix (place_of w) (place_of (posix_join w ps))"
    by (auto simp: strict_prefix_def)
qed

lemma save_inside_workdir:
  assumes ab: "startswith_sep w" and si: "stays_inside ps" and ne: "ps \<noteq> []"
    and sv: "save_to_disk (posix_join w ps) v st = (r, st')"
    and fw: "file_written st st' q"
  shows "strict_prefix (place_of w) q"
proof -
  let ?s = "posix_join w ps"
  have a: "startswith_sep ?s" using ab by (rule absolute_posix_join)
  from save_to_disk_writes [OF sv a fw] have q: "q = place_of ?s" .
  from fw have ch: "st' \<noteq> st" by (auto simp: file_written_def)
  have nm: "is_name (last (split_sep ?s))"
  proof (rule ccontr)
    assume n: "\<not> is_name (last (split_sep ?s))"
    obtain r1 st1 where m: "os_makedirs st (posix_dirname ?s) = (r1, st1)"
      by (cases "os_makedirs st (posix_dirname ?s)")
    have keep: "files st1 q = files st q \<or> (files st q = None \<and> files st1 q = Some Dir)"
      using makedirs_files [OF m] by simp
    from n have "\<And>f st2. os_open_wb st1 ?s \<noteq> (Inr f, st2)"
      using open_wb_result by blast
    then obtain e where "os_open_wb st1 ?s = (Inl e, st1)"
      using open_wb_failure [of st1 ?s]
      by (cases "os_open_wb st1 ?s"; cases "fst (os_open_wb st1 ?s)") auto
    with m sv have "st' = st1" by (cases r1) (simp_all add: save_to_disk_def)
    with keep fw show False by (auto simp: file_written_def is_regular_def)
  qed
  from place_inside(2) [OF si nm ne] q show ?thesis by simp
qed

lemma save_each_writes:
  assumes "startswith_sep w"
    and "save_each w d f arts st = (r, st')" and "file_written st st' q"
  shows "\<exists>a \<in> set arts. q = place_of (posix_join w [d, prefixed_name a f])"
  using assms(2,3)
proof (induction arts arbitrary: st)
  case Nil
  then show ?case by (simp add: file_written_def)
next
  case (Cons a arts)
  let ?s = "posix_join w [d, prefixed_name a f]"
  obtain r1 st1 where s1: "save_to_disk ?s (value a) st = (r1, st1)"
    by (cases "save_to_disk ?s (value a) st")
  have ab: "startswith_sep ?s" using assms(1) by (rule absolute_posix_join)
  have first: "file_written st st1 q \<Longrightarrow> q = place_of ?s"
    using save_to_disk_writes [OF s1 ab] .
  show ?case
  proof (cases r1)
    case (Inl e)
    with s1 Cons.prems(1) have "st' = st1" by simp
    with Cons.prems(2) first show ?thesis by simp
  next
    case (Inr u)
    with s1 Cons.prems(1) have rest: "save_each w d f arts st1 = (r, st')" by simp
    from Cons.prems(2) have "file_written st st1 q \<or> file_written st1 st' q"
      by (rule file_written_trans)
    then show ?thesis
    proof
      assume "file_written st st1 q"
      with first show ?thesis by simp
    next
      assume "file_written st1 st' q"
      with Cons.IH [OF rest] show ?thesis by auto
    qed
  qed
qed

lemma save_each_inside_workdir:
  assumes "startswith_sep w"
    and "\<forall>a \<in> set arts. stays_inside [d, prefixed_name a f]"
    and "save_each w d f arts st = (r, st')" and "file_written st st' q"
  shows "strict_prefix (place_of w) q"
  using assms(2-4)
proof (induction arts arbitrary: st)
  case Nil
  then show ?case by (simp add: file_written_def)
next
  case (Cons a arts)
  let ?s = "posix_join w [d, prefixed_name a f]"
  obtain r1 st1 where s1: "save_to_disk ?s (value a) st = (r1, st1)"
    by (cases "save_to_disk ?s (value a) st")
  from Cons.prems(1) have si: "stays_inside [d, prefixed_name a f]" by simp
  have first: "file_written st st1 q \<Longrightarrow> strict_prefix (place_of w) q"
    using save_inside_workdir [OF assms(1) si _ s1] by simp
  show ?case
  proof (cases r1)
    case (Inl e)
    with s1 Cons.prems(2) have "st' = st1" by simp
    with Cons.prems(3) first show ?thesis by simp
  next
    case (Inr u)
    with s1 Cons.prems(2) have rest: "save_each w d f arts st1 = (r, st')" by simp
    from Cons.prems(3) have "file_written st st1 q \<or> file_written st1 st' q"
      by (rule file_written_trans)
    then show ?thesis
    proof
      assume "file_written st st1 q"
      then show ?thesis by (rule first)
    next
      assume "file_written st1 st' q"
      with Cons.IH [OF _ rest] Cons.prems(1) show ?thesis by simp
    qed
  qed
qed

lemma saved_nodes:
  assumes "can_save st s v"
  shows "files (saved st s data) (place_of s) = Some (File data)"
    and "q \<in> set (way_of s) \<Longrightarrow> files (saved st s data) q = Some Dir"
    and "node_at st q = Some Dir \<Longrightarrow> node_at (saved st s data) q = Some Dir"
    and "q \<noteq> place_of s \<Longrightarrow> q \<notin> set (way_of s) \<Longrightarrow> files (saved st s data) q = files st q"
    and "cwd (saved st s data) = cwd st"
  using assms by (auto simp: saved_def can_save_def node_at_def)

lemma writes_in_order_save_each:
  "writes_in_order (map (\<lambda>a. (posix_join w [d, name a @ ''-'' @ f], value a)) arts) st = Some st1
   \<Longrightarrow> save_each w d f arts st = (Inr (), st1)"
proof (induction arts arbitrary: st)
  case Nil
  then show ?case by simp
next
  case (Cons a arts)
  then show ?case
    by (cases "save_to_disk (posix_join w [d, name a @ ''-'' @ f]) (value a) st")
       (auto simp: prefixed_name_def split: sum.splits)
qed

lemma all_saved_save_each:
  assumes "startswith_sep w"
  shows "(all_saved (map (\<lambda>a. (posix_join w [d, prefixed_name a f], value a)) arts) st = Some st1
          \<longrightarrow> save_each w d f arts st = (Inr (), st1))
       \<and> (all_saved (map (\<lambda>a. (posix_join w [d, prefixed_name a f], value a)) arts) st = None
          \<longrightarrow> (\<exists>e st'. save_each w d f arts st = (Inl e, st')))"
proof (induction arts arbitrary: st)
  case Nil
  show ?case by simp
next
  case (Cons a arts)
  let ?s = "posix_join w [d, prefixed_name a f]"
  have ab: "startswith_sep ?s" using assms by (rule absolute_posix_join)
  show ?case
  proof (cases "can_save st ?s (value a)")
    case True
    from save_to_disk_ok [OF ab True] Cons.IH [of "saved st ?s (projr (to_bytes (value a)))"] True
    show ?thesis by simp
  next
    case False
    from save_to_disk_fails [OF ab False] False show ?thesis by auto
  qed
qed

lemma write_result_returns: "\<exists>a st1. write_result r = (Inr a, st1)"
  by (cases r) (auto simp: write_result_def split: sum.splits)

lemma write_result_error:
  "write_result (Inl e, st1)
     = (Inr (ErrorArtifact (''error writing file to disk: '' @ str_exn e)), st1)"
  by (simp add: write_result_def)

lemma write_result_saved:
  "write_result r = (Inr (InfoArtifact m), st') \<Longrightarrow> r = (Inr (), st')"
  by (cases r) (auto simp: write_result_def split: sum.splits)

lemma write_result_state: "write_result x = (r, st') \<Longrightarrow> \<exists>r0. x = (r0, st')"
  by (cases x) (auto simp: write_result_def split: sum.splits)

lemma load_loop_first_failure:
  assumes "\<forall>q \<in> set pre. \<exists>a. ld w (Path_str q) st = Inr a"
    and "ld w (Path_str p) st = Inl e"
  shows "load_loop ld w st acc (pre @ p # post)
     = Inr (ErrorArtifact (load_error_message p e))"
  using assms
proof (induction pre arbitrary: acc)
  case Nil
  then show ?case by (simp add: load_error_message_def)
next
  case (Cons q pre)
  then obtain a where a: "ld w (Path_str q) st = Inr a" by auto
  from Cons have "load_loop ld w st (acc @ [a]) (pre @ p # post)
     = Inr (ErrorArtifact (load_error_message p e))"
    by simp
  with a show ?case by simp
qed

lemma load_loop_result:
  "(\<exists>m. load_loop ld w st acc paths = Inr (ErrorArtifact m)) \<or>
   (load_loop ld w st acc paths
      = Inr (ListArtifact (acc @ map (\<lambda>q. projr (ld w (Path_str q) st)) paths))
    \<and> (\<forall>q \<in> set paths. \<exists>a. ld w (Path_str q) st = Inr a))"
proof (induction paths arbitrary: acc)
  case Nil
  then show ?case by simp
next
  case (Cons p paths)
  show ?case
  proof (cases "ld w (Path_str p) st")
    case (Inl e)
    then show ?thesis by simp
  next
    case (Inr a)
    with Cons [of "acc @ [a]"] show ?thesis by auto
  qed
qed

lemma load_loop_failure_is_error:
  assumes "p \<in> set paths" and "ld w (Path_str p) st = Inl e"
  shows "\<exists>m. load_loop ld w st acc paths = Inr (ErrorArtifact m)"
  using load_loop_result [of ld w st acc paths] assms by auto

lemma FileLoader_load_no_file:
  "\<not> is_file st (posix_join w [path]) \<Longrightarrow> \<exists>e. FileLoader_load w path st = Inl e"
proof (cases "os_read_file st (posix_join w [path])")
  case (Inl e)
  then show ?thesis by (simp add: FileLoader_load_def)
next
  case (Inr b)
  assume "\<not> is_file st (posix_join w [path])"
  with read_is_file [OF Inr] show ?thesis by (simp add: is_file_def)
qed

lemma FileLoader_load_not_found:
  "os_stat st (posix_join w [path]) = Inl (FileNotFoundError x) \<Longrightarrow>
   FileLoader_load w path st = Inl (FileNotFoundError x)"
  by (simp add: FileLoader_load_def stat_not_found)

lemma is_file_loads:
  "is_file st (posix_join w [path]) \<Longrightarrow> \<exists>a. FileLoader_load w path st = Inr a"
  by (auto simp: is_file_def FileLoader_load_def os_stat_def os_read_file_def Let_def is_name_def
      split: if_splits sum.splits option.splits node.splits)

lemma str_encode_utf8: "str_encode c = Inr data \<Longrightarrow> data = utf8 c"
  by (auto simp: str_encode_def Let_def split: list.splits)

lemma assignments_absolute:
  "is_absolute (workdir fm) \<Longrightarrow> assignments fm ws = Inr fm' \<Longrightarrow> is_absolute (workdir fm')"
proof (induction ws arbitrary: fm)
  case Nil
  then show ?case by simp
next
  case (Cons w ws)
  from Cons.prems(2) obtain fm1 where s: "set_workdir fm w = Inr fm1"
    and r: "assignments fm1 ws = Inr fm'"
    by (auto split: sum.splits)
  from s have "is_absolute (workdir fm1)"
    by (auto simp: set_workdir_def validate_workdir_def split: if_splits)
  from Cons.IH [OF this r] show ?case .
qed

lemma save_each_first_failure:
  assumes "writes_in_order (map (\<lambda>a. (posix_join w [d, prefixed_name a f], value a)) pre) st
             = Some st0"
    and "save_to_disk (posix_join w [d, prefixed_name a f]) (value a) st0 = (Inl e, st1)"
  shows "save_each w d f (pre @ a # post) st = (Inl e, st1)"
  using assms
proof (induction pre arbitrary: st)
  case Nil
  then show ?case by simp
next
  case (Cons b pre)
  then show ?case
    by (cases "save_to_disk (posix_join w [d, prefixed_name b f]) (value b) st")
       (auto split: sum.splits)
qed

section \<open>The model on the example inputs\<close>

lemma example_load_a:
  "FileLoader_load ''/w'' (Path_str ''a.txt'') example_fs = Inr (BlobArtifact ''abc'')"
  by (simp add: FileLoader_load_def example_fs_def path_defs os_defs)

lemma example_load_gone:
  "FileLoader_load ''/w'' (Path_str ''gone.txt'') example_fs
     = Inl (FileNotFoundError ''/w/gone.txt'')"
  by (simp add: FileLoader_load_def example_fs_def path_defs os_defs)

lemma example_stat_gone:
  "os_stat example_fs (posix_join ''/w'' [Path_str ''gone.txt''])
     = Inl (FileNotFoundError ''/w/gone.txt'')"
  by (simp add: example_fs_def path_defs os_defs)

lemma example_utf8: "utf8 xyz = ''xyz''"
  by (simp add: value_defs)

lemma example_save:
  "fst (save_content_to_file example_fm ''d/e/f.txt'' xyz example_fs)
     = Inr (InfoArtifact ''saved successfully'')"
  by (simp add: run_defs path_defs os_defs value_defs)

lemma example_written:
  "file_written example_fs (snd (save_content_to_file example_fm ''d/e/f.txt'' xyz example_fs))
     [''w'', ''d'', ''e'', ''f.txt'']"
  by (simp add: file_written_def is_regular_def run_defs path_defs os_defs value_defs)

lemma example_can_save:
  "can_save example_fs ''/w/d/e/f.txt'' (PyStr xyz)"
  by (simp add: can_save_def way_of_def dir_names_def place_of_def names_of_def is_regular_def
      example_fs_def path_defs os_defs value_defs)

lemma example_two_writes:
  "\<exists>st1. writes_in_order
      (map (\<lambda>a. (posix_join ''/w'' [''out'', name a @ ''-'' @ ''f.txt''], value a))
         [\<lparr>name = ''a'', value = PyStr [65]\<rparr>, \<lparr>name = ''b'', value = PyBytes ''B''\<rparr>])
      example_fs = Some st1
    \<and> files st1 [''w'', ''out'', ''a-f.txt''] = Some (File ''A'')
    \<and> files st1 [''w'', ''out'', ''b-f.txt''] = Some (File ''B'')"
  by (simp add: save_to_disk_def example_fs_def path_defs os_defs value_defs)


lemma example_saved:
  "files (saved example_fs ''/w/d/e/f.txt'' ''xyz'') [''w'', ''d'', ''e'', ''f.txt'']
     = Some (File ''xyz'')"
  "files (saved example_fs ''/w/d/e/f.txt'' ''xyz'') [''w'', ''d''] = Some Dir"
  "files (saved example_fs ''/w/d/e/f.txt'' ''xyz'') [''w'', ''d'', ''e''] = Some Dir"
  "files (saved example_fs ''/w/d/e/f.txt'' ''xyz'') [''w'', ''sub''] = Some Dir"
  by (simp_all add: saved_def place_of_def way_of_def dir_names_def names_of_def
      example_fs_def path_defs)

section \<open>The claims\<close>

subsection \<open>C1: saving then loading\<close>

text \<open>
  C1: when \<open>save_content_to_file\<close> with path \<open>p\<close> and content \<open>c\<close> returns the success
  InfoArtifact, \<open>load_files_from_disk\<close> with paths \<open>[p]\<close> on the resulting file system
  returns a ListArtifact with one element, which carries exactly the bytes of \<open>c\<close>, its
  UTF-8 encoding. This holds for every work directory, every path and every content,
  with the file loader reading the path it is given below the work directory.
\<close>

theorem C1_save_then_load_round_trip:
  assumes "save_content_to_file fm p c st = (Inr (InfoArtifact ''saved successfully''), st')"
  shows "load_files_from_disk FileLoader_load fm [p] st'
     = Inr (ListArtifact [BlobArtifact (utf8 c)])"
proof -
  let ?s = "join_step (workdir fm) p"
  let ?s' = "join_step (workdir fm) (Path_str p)"
  from assms have sv: "save_to_disk ?s (PyStr c) st = (Inr (), st')"
    by (simp add: save_content_to_file_def posix_join_def write_result_saved)
  from save_to_disk_encodes [OF sv] obtain data where "str_encode c = Inr data"
    by (auto simp: to_bytes_def)
  with str_encode_utf8 [of c data] have "to_bytes (PyStr c) = Inr (utf8 c)"
    by (simp add: to_bytes_def)
  with save_to_disk_then_read [OF sv] have rd: "os_read_file st' ?s = Inr (utf8 c)" by simp
  from sv have nm: "is_part (last (split_sep ?s))" and nn: "\<not> has_nul ?s"
    using save_to_disk_names_file [of ?s "PyStr c" st "()" st'] by (simp_all add: is_name_def)
  have "os_read_file st' ?s' = Inr (utf8 c)"
    using rd loader_path_same_place [OF nm nn] by (rule read_same_place)
  then have "FileLoader_load (workdir fm) (Path_str p) st' = Inr (BlobArtifact (utf8 c))"
    by (simp add: FileLoader_load_def posix_join_def)
  then show ?thesis by (simp add: load_files_from_disk_def)
qed

theorem C1_witness:
  "load_files_from_disk FileLoader_load example_fm [''d/e/f.txt'']
      (snd (save_content_to_file example_fm ''d/e/f.txt'' xyz example_fs))
     = Inr (ListArtifact [BlobArtifact ''xyz''])"
proof -
  have "save_content_to_file example_fm ''d/e/f.txt'' xyz example_fs
     = (Inr (InfoArtifact ''saved successfully''),
        snd (save_content_to_file example_fm ''d/e/f.txt'' xyz example_fs))"
    using example_save by (simp add: prod_eq_iff)
  from C1_save_then_load_round_trip [OF this] show ?thesis by (simp add: example_utf8)
qed

subsection \<open>C2: which failures are caught\<close>

text \<open>
  C2, as the code has it. \<open>load_files_from_disk\<close> never raises, whatever the loader does:
  at the first path \<open>p\<close> whose loading raises \<open>e\<close> it returns the ErrorArtifact with the
  message \<open>file in path `p` not found\<close> when \<open>e\<close> is a FileNotFoundError and
  \<open>error loading file: str(e)\<close> otherwise. \<open>save_content_to_file\<close> never raises: a write
  that raises \<open>e\<close> gives the ErrorArtifact \<open>error writing file to disk: str(e)\<close>, a write
  that returns gives the InfoArtifact. \<open>save_memory_artifacts_to_disk\<close> answers a failing
  write the same way, with one artifact and at the first failing write of several, but
  an exception of \<open>find_input_memory\<close> or of \<open>load_artifacts\<close> leaves the method, both
  calls standing before the \<open>try\<close>; when both return, the method returns an artifact.
  \<open>search_record\<close>, \<open>summarize_record\<close> and \<open>process_output\<close> have no handler: what the
  driver raises leaves the method.
\<close>

theorem C2_failures_of_file_access_are_caught:
  "(\<exists>r. load_files_from_disk ld fm paths st = Inr r)
   \<and> ((\<forall>q \<in> set pre. \<exists>a. ld (workdir fm) (Path_str q) st = Inr a)
       \<and> ld (workdir fm) (Path_str p) st = Inl e
      \<longrightarrow> load_files_from_disk ld fm (pre @ p # post) st
            = Inr (ErrorArtifact
                (if is_FileNotFoundError e
                 then ''file in path '' @ [CHR 0x60] @ p @ [CHR 0x60] @ '' not found''
                 else ''error loading file: '' @ str_exn e)))
   \<and> (save_to_disk (posix_join (workdir fm) [p]) (PyStr c) st = (Inl e, st1)
      \<longrightarrow> save_content_to_file fm p c st
            = (Inr (ErrorArtifact (''error writing file to disk: '' @ str_exn e)), st1))
   \<and> (save_to_disk (posix_join (workdir fm) [p]) (PyStr c) st = (Inr u, st1)
      \<longrightarrow> save_content_to_file fm p c st = (Inr (InfoArtifact ''saved successfully''), st1))
   \<and> (find_input_memory fm (memory_name ps) = Inr (Some m)
       \<and> m (artifact_namespace ps) = Inr [a]
       \<and> save_to_disk (posix_join (workdir fm) [dir_name ps, file_name ps]) (value a) st
           = (Inl e, st1)
      \<longrightarrow> save_memory_artifacts_to_disk fm ps st
            = (Inr (ErrorArtifact (''error writing file to disk: '' @ str_exn e)), st1))
   \<and> (find_input_memory fm (memory_name ps) = Inr (Some m)
       \<and> m (artifact_namespace ps) = Inr (before @ a # after) \<and> 1 < length (before @ a # after)
       \<and> writes_in_order
            (map (\<lambda>a. (posix_join (workdir fm) [dir_name ps, name a @ ''-'' @ file_name ps],
                        value a)) before) st = Some st0
       \<and> save_to_disk (posix_join (workdir fm) [dir_name ps, name a @ ''-'' @ file_name ps])
            (value a) st0 = (Inl e, st1)
      \<longrightarrow> save_memory_artifacts_to_disk fm ps st
            = (Inr (ErrorArtifact (''error writing file to disk: '' @ str_exn e)), st1))
   \<and> (find_input_memory fm (memory_name ps) = Inl e
      \<longrightarrow> save_memory_artifacts_to_disk fm ps st = (Inl e, st))
   \<and> (find_input_memory fm (memory_name ps) = Inr (Some m)
       \<and> m (artifact_namespace ps) = Inl e
      \<longrightarrow> save_memory_artifacts_to_disk fm ps st = (Inl e, st))
   \<and> (find_input_memory fm (memory_name ps) = Inr None
       \<or> (find_input_memory fm (memory_name ps) = Inr (Some m)
           \<and> m (artifact_namespace ps) = Inr arts)
      \<longrightarrow> (\<exists>r st2. save_memory_artifacts_to_disk fm ps st = (Inr r, st2)))
   \<and> (query_record (driver ramp) (record_id v) (query v) d = (Inl e, d1)
      \<longrightarrow> search_record ramp v d = (Inl e, d1))
   \<and> (summarize_record_of (driver ramp) i d = (Inl e, d1)
      \<longrightarrow> summarize_record ramp i d = (Inl e, d1))
   \<and> (save (driver ramp) t d = (Inl e, d1)
      \<longrightarrow> process_output j2 ramp act (TextArtifact t) d = (Inl e, d1))"
proof (intro conjI impI)
  from load_loop_result [of ld "workdir fm" st "[]" paths]
  show "\<exists>r. load_files_from_disk ld fm paths st = Inr r"
    by (auto simp: load_files_from_disk_def)
next
  assume "(\<forall>q \<in> set pre. \<exists>a. ld (workdir fm) (Path_str q) st = Inr a)
       \<and> ld (workdir fm) (Path_str p) st = Inl e"
  then have "load_files_from_disk ld fm (pre @ p # post) st
            = Inr (ErrorArtifact (load_error_message p e))"
    unfolding load_files_from_disk_def by (intro load_loop_first_failure) simp_all
  then show "load_files_from_disk ld fm (pre @ p # post) st
            = Inr (ErrorArtifact
                (if is_FileNotFoundError e
                 then ''file in path '' @ [CHR 0x60] @ p @ [CHR 0x60] @ '' not found''
                 else ''error loading file: '' @ str_exn e))"
    by (simp add: load_error_message_def)
next
  assume "save_to_disk (posix_join (workdir fm) [p]) (PyStr c) st = (Inl e, st1)"
  then show "save_content_to_file fm p c st
            = (Inr (ErrorArtifact (''error writing file to disk: '' @ str_exn e)), st1)"
    by (simp add: save_content_to_file_def write_result_def)
next
  assume "save_to_disk (posix_join (workdir fm) [p]) (PyStr c) st = (Inr u, st1)"
  then show "save_content_to_file fm p c st = (Inr (InfoArtifact ''saved successfully''), st1)"
    by (simp add: save_content_to_file_def write_result_def)
next
  assume "find_input_memory fm (memory_name ps) = Inr (Some m)
       \<and> m (artifact_namespace ps) = Inr [a]
       \<and> save_to_disk (posix_join (workdir fm) [dir_name ps, file_name ps]) (value a) st
           = (Inl e, st1)"
  then show "save_memory_artifacts_to_disk fm ps st
            = (Inr (ErrorArtifact (''error writing file to disk: '' @ str_exn e)), st1)"
    by (simp add: save_memory_artifacts_to_disk_def write_result_def)
next
  assume a: "find_input_memory fm (memory_name ps) = Inr (Some m)
       \<and> m (artifact_namespace ps) = Inr (before @ a # after) \<and> 1 < length (before @ a # after)
       \<and> writes_in_order
            (map (\<lambda>a. (posix_join (workdir fm) [dir_name ps, name a @ ''-'' @ file_name ps],
                        value a)) before) st = Some st0
       \<and> save_to_disk (posix_join (workdir fm) [dir_name ps, name a @ ''-'' @ file_name ps])
            (value a) st0 = (Inl e, st1)"
  define arts where "arts = before @ a # after"
  from a have "save_each (workdir fm) (dir_name ps) (file_name ps) arts st = (Inl e, st1)"
    unfolding arts_def
    by (intro save_each_first_failure [where ?st0.0 = st0]) (simp_all add: prefixed_name_def)
  moreover from a have "length arts \<noteq> 0" and "length arts \<noteq> 1"
    by (auto simp: arts_def)
  moreover from a have "find_input_memory fm (memory_name ps) = Inr (Some m)"
    and "m (artifact_namespace ps) = Inr arts"
    by (simp_all add: arts_def)
  ultimately show "save_memory_artifacts_to_disk fm ps st
            = (Inr (ErrorArtifact (''error writing file to disk: '' @ str_exn e)), st1)"
    by (simp add: save_memory_artifacts_to_disk_def write_result_def)
next
  assume "find_input_memory fm (memory_name ps) = Inl e"
  then show "save_memory_artifacts_to_disk fm ps st = (Inl e, st)"
    by (simp add: save_memory_artifacts_to_disk_def)
next
  assume "find_input_memory fm (memory_name ps) = Inr (Some m)
       \<and> m (artifact_namespace ps) = Inl e"
  then show "save_memory_artifacts_to_disk fm ps st = (Inl e, st)"
    by (simp add: save_memory_artifacts_to_disk_def)
next
  assume "find_input_memory fm (memory_name ps) = Inr None
       \<or> (find_input_memory fm (memory_name ps) = Inr (Some m)
           \<and> m (artifact_namespace ps) = Inr arts)"
  then show "\<exists>r st2. save_memory_artifacts_to_disk fm ps st = (Inr r, st2)"
    using write_result_returns
      [of "save_to_disk (posix_join (workdir fm) [dir_name ps, file_name ps])
             (value (arts ! 0)) st"]
      write_result_returns
      [of "save_each (workdir fm) (dir_name ps) (file_name ps) arts st"]
    by (auto simp: save_memory_artifacts_to_disk_def)
next
  assume "query_record (driver ramp) (record_id v) (query v) d = (Inl e, d1)"
  then show "search_record ramp v d = (Inl e, d1)" by (simp add: search_record_def)
next
  assume "summarize_record_of (driver ramp) i d = (Inl e, d1)"
  then show "summarize_record ramp i d = (Inl e, d1)" by (simp add: summarize_record_def)
next
  assume "save (driver ramp) t d = (Inl e, d1)"
  then show "process_output j2 ramp act (TextArtifact t) d = (Inl e, d1)"
    by (simp add: process_output_def)
qed

theorem C2_witness:
  "load_files_from_disk FileLoader_load example_fm [''a.txt'', ''gone.txt''] example_fs
     = Inr (ErrorArtifact (''file in path '' @ [CHR 0x60] @ ''gone.txt'' @ [CHR 0x60] @ '' not found''))"
proof -
  have h: "(\<forall>q \<in> set [''a.txt'']. \<exists>a. FileLoader_load (workdir example_fm) (Path_str q) example_fs = Inr a)
     \<and> FileLoader_load (workdir example_fm) (Path_str ''gone.txt'') example_fs
         = Inl (FileNotFoundError ''/w/gone.txt'')"
    using example_load_a example_load_gone by (simp add: example_fm_def)
  from C2_failures_of_file_access_are_caught
    [where pre = "[''a.txt'']" and ld = FileLoader_load and fm = example_fm and st = example_fs
       and p = "''gone.txt''" and e = "FileNotFoundError ''/w/gone.txt''" and post = "[]",
     THEN conjunct2, THEN conjunct1, rule_format, OF h]
  show ?thesis by simp
qed

theorem C2_counterexample:
  "search_record \<lparr>ramp_name = ''store'', driver = failing_driver\<rparr>
      \<lparr>record_id = ''k'', query = ''what''\<rparr> ()
     = (Inl (OtherError ''storage unavailable''), ())
   \<and> fst (save_memory_artifacts_to_disk raising_tool
      \<lparr>memory_name = ''notes'', artifact_namespace = ''one'', dir_name = ''out'',
       file_name = ''f.txt''\<rparr> example_fs)
     = Inl (OtherError ''memory unavailable'')
   \<and> fst (save_memory_artifacts_to_disk example_tool
      \<lparr>memory_name = ''notes'', artifact_namespace = ''locked'', dir_name = ''out'',
       file_name = ''f.txt''\<rparr> example_fs)
     = Inl (OtherError ''namespace locked'')"
  by (simp add: search_record_def failing_driver_def save_memory_artifacts_to_disk_def
      raising_tool_def example_tool_def example_memory_def)

subsection \<open>C3: loading a path that names no file\<close>

text \<open>
  C3: \<open>load_files_from_disk\<close> never raises. When the loading of a path \<open>p\<close> raises a
  FileNotFoundError and the paths before it load, the result is the ErrorArtifact with
  the message \<open>file in path `p` not found\<close>, \<open>p\<close> as it was given; when the loading of
  any of the paths raises, the result is an ErrorArtifact. With the file loader reading
  below the work directory, a path that names no regular file there makes the result an
  ErrorArtifact, and a path that names nothing gives the message above.
\<close>

theorem C3_missing_file_is_error_artifact:
  "((\<forall>q \<in> set pre. \<exists>a. ld (workdir fm) (Path_str q) st = Inr a)
      \<and> ld (workdir fm) (Path_str p) st = Inl (FileNotFoundError x)
      \<longrightarrow> load_files_from_disk ld fm (pre @ p # post) st
            = Inr (ErrorArtifact (''file in path '' @ [CHR 0x60] @ p @ [CHR 0x60] @ '' not found'')))
   \<and> (p \<in> set paths \<and> ld (workdir fm) (Path_str p) st = Inl e
      \<longrightarrow> (\<exists>msg. load_files_from_disk ld fm paths st = Inr (ErrorArtifact msg)))
   \<and> (p \<in> set paths \<and> \<not> is_file st (posix_join (workdir fm) [Path_str p])
      \<longrightarrow> (\<exists>msg. load_files_from_disk FileLoader_load fm paths st = Inr (ErrorArtifact msg)))
   \<and> ((\<forall>q \<in> set pre. is_file st (posix_join (workdir fm) [Path_str q]))
      \<and> os_stat st (posix_join (workdir fm) [Path_str p]) = Inl (FileNotFoundError x)
      \<longrightarrow> load_files_from_disk FileLoader_load fm (pre @ p # post) st
            = Inr (ErrorArtifact (''file in path '' @ [CHR 0x60] @ p @ [CHR 0x60] @ '' not found'')))
   \<and> (\<exists>r. load_files_from_disk ld fm paths st = Inr r)"
proof (intro conjI impI)
  assume "(\<forall>q \<in> set pre. \<exists>a. ld (workdir fm) (Path_str q) st = Inr a)
      \<and> ld (workdir fm) (Path_str p) st = Inl (FileNotFoundError x)"
  then have "load_files_from_disk ld fm (pre @ p # post) st
            = Inr (ErrorArtifact (load_error_message p (FileNotFoundError x)))"
    unfolding load_files_from_disk_def by (intro load_loop_first_failure) simp_all
  then show "load_files_from_disk ld fm (pre @ p # post) st
            = Inr (ErrorArtifact (''file in path '' @ [CHR 0x60] @ p @ [CHR 0x60] @ '' not found''))"
    by (simp add: load_error_message_def)
next
  assume "p \<in> set paths \<and> ld (workdir fm) (Path_str p) st = Inl e"
  then show "\<exists>msg. load_files_from_disk ld fm paths st = Inr (ErrorArtifact msg)"
    unfolding load_files_from_disk_def by (intro load_loop_failure_is_error [of p]) simp_all
next
  assume a: "p \<in> set paths \<and> \<not> is_file st (posix_join (workdir fm) [Path_str p])"
  then obtain e where "FileLoader_load (workdir fm) (Path_str p) st = Inl e"
    using FileLoader_load_no_file by blast
  with a show "\<exists>msg. load_files_from_disk FileLoader_load fm paths st = Inr (ErrorArtifact msg)"
    unfolding load_files_from_disk_def by (intro load_loop_failure_is_error [of p]) simp_all
next
  assume a: "(\<forall>q \<in> set pre. is_file st (posix_join (workdir fm) [Path_str q]))
      \<and> os_stat st (posix_join (workdir fm) [Path_str p]) = Inl (FileNotFoundError x)"
  have pre: "\<forall>q \<in> set pre. \<exists>a. FileLoader_load (workdir fm) (Path_str q) st = Inr a"
  proof
    fix q assume "q \<in> set pre"
    with a have "is_file st (posix_join (workdir fm) [Path_str q])" by blast
    then show "\<exists>a. FileLoader_load (workdir fm) (Path_str q) st = Inr a"
      using is_file_loads by blast
  qed
  from a have "FileLoader_load (workdir fm) (Path_str p) st = Inl (FileNotFoundError x)"
    by (simp add: FileLoader_load_not_found)
  with pre have "load_files_from_disk FileLoader_load fm (pre @ p # post) st
            = Inr (ErrorArtifact (load_error_message p (FileNotFoundError x)))"
    unfolding load_files_from_disk_def by (intro load_loop_first_failure) simp_all
  then show "load_files_from_disk FileLoader_load fm (pre @ p # post) st
            = Inr (ErrorArtifact (''file in path '' @ [CHR 0x60] @ p @ [CHR 0x60] @ '' not found''))"
    by (simp add: load_error_message_def)
next
  from load_loop_result [of ld "workdir fm" st "[]" paths]
  show "\<exists>r. load_files_from_disk ld fm paths st = Inr r"
    by (auto simp: load_files_from_disk_def)
qed

theorem C3_witness:
  "load_files_from_disk FileLoader_load example_fm [''a.txt'', ''gone.txt'', ''a.txt''] example_fs
     = Inr (ErrorArtifact (''file in path '' @ [CHR 0x60] @ ''gone.txt'' @ [CHR 0x60] @ '' not found''))"
proof -
  have h: "(\<forall>q \<in> set [''a.txt'']. is_file example_fs (posix_join (workdir example_fm) [Path_str q]))
      \<and> os_stat example_fs (posix_join (workdir example_fm) [Path_str ''gone.txt''])
          = Inl (FileNotFoundError ''/w/gone.txt'')"
    using example_stat_gone
    by (simp add: is_file_def example_fm_def example_fs_def path_defs os_defs)
  from C3_missing_file_is_error_artifact
    [where pre = "[''a.txt'']" and fm = example_fm and st = example_fs
       and p = "''gone.txt''" and x = "''/w/gone.txt''" and post = "[''a.txt'']",
     THEN conjunct2, THEN conjunct2, THEN conjunct2, THEN conjunct1, rule_format, OF h]
  show ?thesis by simp
qed

subsection \<open>C4: the work directory is validated\<close>

text \<open>
  C4, as the code has it: constructing a FileManager with workdir \<open>w\<close> raises the
  ValueError of \<open>validate_workdir\<close> exactly when \<open>w\<close> is not absolute, that is when it
  does not start with a slash, and returns the tool with that workdir otherwise. The
  validator does not run at construction only: the class is made by \<open>attr.define\<close>, so
  every later assignment to \<open>workdir\<close> runs it again, raises the same ValueError for a
  value that is not absolute and leaves the field as it was. Hence the workdir of a tool
  is absolute after its construction and any assignments that returned.
\<close>

theorem C4_workdir_validated:
  "(FileManager_init w mems = Inl (ValueError ''workdir has to be absolute absolute'')
      \<longleftrightarrow> \<not> is_absolute w)
   \<and> (FileManager_init w mems = Inr \<lparr>workdir = w, find_input_memory = mems\<rparr>
      \<longleftrightarrow> is_absolute w)
   \<and> (is_absolute w \<longleftrightarrow> take 1 w = ''/'')
   \<and> (set_workdir fm w = Inl (ValueError ''workdir has to be absolute absolute'')
      \<longleftrightarrow> \<not> is_absolute w)
   \<and> (set_workdir fm w = Inr (fm\<lparr>workdir := w\<rparr>) \<longleftrightarrow> is_absolute w)
   \<and> (FileManager_init w mems = Inr fm \<and> assignments fm ws = Inr fm'
      \<longrightarrow> is_absolute (workdir fm'))"
proof (intro conjI impI)
  show "FileManager_init w mems = Inl (ValueError ''workdir has to be absolute absolute'')
      \<longleftrightarrow> \<not> is_absolute w"
    by (simp add: FileManager_init_def validate_workdir_def)
  show "FileManager_init w mems = Inr \<lparr>workdir = w, find_input_memory = mems\<rparr>
      \<longleftrightarrow> is_absolute w"
    by (simp add: FileManager_init_def validate_workdir_def)
  show "is_absolute w \<longleftrightarrow> take 1 w = ''/''"
    by (cases w) (simp_all add: is_absolute_def startswith_sep_def sep_def)
  show "set_workdir fm w = Inl (ValueError ''workdir has to be absolute absolute'')
      \<longleftrightarrow> \<not> is_absolute w"
    by (simp add: set_workdir_def validate_workdir_def)
  show "set_workdir fm w = Inr (fm\<lparr>workdir := w\<rparr>) \<longleftrightarrow> is_absolute w"
    by (simp add: set_workdir_def validate_workdir_def)
next
  assume a: "FileManager_init w mems = Inr fm \<and> assignments fm ws = Inr fm'"
  then have "is_absolute (workdir fm)"
    by (auto simp: FileManager_init_def validate_workdir_def split: if_splits)
  with a show "is_absolute (workdir fm')" using assignments_absolute by blast
qed

theorem C4_witness:
  "is_absolute (workdir (projr (assignments example_fm [''/srv'', ''/tmp/x''])))"
proof -
  have h: "FileManager_init ''/w'' (find_input_memory example_fm) = Inr example_fm
     \<and> assignments example_fm [''/srv'', ''/tmp/x'']
         = Inr (projr (assignments example_fm [''/srv'', ''/tmp/x'']))"
    by (simp add: FileManager_init_def validate_workdir_def set_workdir_def is_absolute_def
        example_fm_def path_defs)
  from C4_workdir_validated
    [where w = "''/w''" and mems = "find_input_memory example_fm" and fm = example_fm
       and ws = "[''/srv'', ''/tmp/x'']"
       and fm' = "projr (assignments example_fm [''/srv'', ''/tmp/x''])",
     THEN conjunct2, THEN conjunct2, THEN conjunct2, THEN conjunct2, THEN conjunct2,
     rule_format, OF h]
  show ?thesis .
qed

theorem C4_counterexample:
  "FileManager_init ''/w'' (find_input_memory example_fm) = Inr example_fm
   \<and> set_workdir example_fm ''srv'' = Inl (ValueError ''workdir has to be absolute absolute'')"
  by (simp add: FileManager_init_def set_workdir_def validate_workdir_def is_absolute_def
      example_fm_def path_defs)

subsection \<open>C5: where the files are written\<close>

text \<open>
  C5, as the code has it, on a file system without symbolic links and for a tool with an
  absolute workdir \<open>w\<close>. Every file that \<open>save_content_to_file\<close> or
  \<open>save_memory_artifacts_to_disk\<close> writes is the one named by \<open>os.path.join\<close> of \<open>w\<close> and
  the path parameters: \<open>path\<close>; \<open>dir_name\<close> and \<open>file_name\<close> with one artifact; \<open>dir_name\<close>
  and \<open>a.name-file_name\<close> for one of the artifacts \<open>a\<close> with several. Such a file lies
  below \<open>w\<close> when the parameters are relative and, read from left to right, never have
  more \<open>..\<close> than names before them. Without a memory, or without artifacts, nothing is
  written. The code does not check the joined path.
\<close>

theorem C5_writes_stay_below_workdir:
  assumes "is_absolute (workdir fm)"
  shows
  "(save_content_to_file fm p c st = (r, st') \<and> file_written st st' q
      \<longrightarrow> q = place_of (posix_join (workdir fm) [p])
          \<and> (stays_inside [p]
               \<longrightarrow> q = place_of (workdir fm) @ resolve [] (names_of p)
                   \<and> strict_prefix (place_of (workdir fm)) q))
   \<and> (find_input_memory fm (memory_name ps) = Inr (Some m)
       \<and> m (artifact_namespace ps) = Inr [a]
       \<and> save_memory_artifacts_to_disk fm ps st = (r, st') \<and> file_written st st' q
      \<longrightarrow> q = place_of (posix_join (workdir fm) [dir_name ps, file_name ps])
          \<and> (stays_inside [dir_name ps, file_name ps]
               \<longrightarrow> strict_prefix (place_of (workdir fm)) q))
   \<and> (find_input_memory fm (memory_name ps) = Inr (Some m)
       \<and> m (artifact_namespace ps) = Inr arts \<and> 1 < length arts
       \<and> save_memory_artifacts_to_disk fm ps st = (r, st') \<and> file_written st st' q
      \<longrightarrow> (\<exists>a \<in> set arts.
              q = place_of (posix_join (workdir fm)
                    [dir_name ps, name a @ ''-'' @ file_name ps]))
          \<and> ((\<forall>a \<in> set arts. stays_inside [dir_name ps, name a @ ''-'' @ file_name ps])
               \<longrightarrow> strict_prefix (place_of (workdir fm)) q))
   \<and> ((find_input_memory fm (memory_name ps) = Inl e
        \<or> find_input_memory fm (memory_name ps) = Inr None
        \<or> (find_input_memory fm (memory_name ps) = Inr (Some m)
            \<and> (m (artifact_namespace ps) = Inl e \<or> m (artifact_namespace ps) = Inr [])))
       \<and> save_memory_artifacts_to_disk fm ps st = (r, st')
      \<longrightarrow> st' = st)"
proof (intro conjI impI)
  from assms have ab: "startswith_sep (workdir fm)" by (simp add: is_absolute_def)
  {
    assume a: "save_content_to_file fm p c st = (r, st') \<and> file_written st st' q"
    then obtain r0 where sv: "save_to_disk (posix_join (workdir fm) [p]) (PyStr c) st = (r0, st')"
      using write_result_state [of "save_to_disk (posix_join (workdir fm) [p]) (PyStr c) st" r st']
      by (auto simp: save_content_to_file_def)
    from a have fw: "file_written st st' q" by simp
    show q: "q = place_of (posix_join (workdir fm) [p])"
      using save_to_disk_writes [OF sv absolute_posix_join [OF ab] fw] .
    assume si: "stays_inside [p]"
    show "strict_prefix (place_of (workdir fm)) q"
      using save_inside_workdir [OF ab si _ sv fw] by simp
    then have "q \<noteq> []" by auto
    have nm: "is_name (last (split_sep (posix_join (workdir fm) [p])))"
    proof (rule ccontr)
      assume n: "\<not> is_name (last (split_sep (posix_join (workdir fm) [p])))"
      let ?s = "posix_join (workdir fm) [p]"
      obtain r1 st1 where m: "os_makedirs st (posix_dirname ?s) = (r1, st1)"
        by (cases "os_makedirs st (posix_dirname ?s)")
      have keep: "files st1 q = files st q \<or> (files st q = None \<and> files st1 q = Some Dir)"
        using makedirs_files [OF m] by simp
      from n have "\<And>f st2. os_open_wb st1 ?s \<noteq> (Inr f, st2)"
        using open_wb_result by blast
      then obtain e where "os_open_wb st1 ?s = (Inl e, st1)"
        using open_wb_failure [of st1 ?s]
        by (cases "os_open_wb st1 ?s"; cases "fst (os_open_wb st1 ?s)") auto
      with m sv have "st' = st1" by (cases r1) (simp_all add: save_to_disk_def)
      with keep fw show False by (auto simp: file_written_def is_regular_def)
    qed
    from place_inside(1) [OF si nm] q
    show "q = place_of (workdir fm) @ resolve [] (names_of p)" by simp
  }
  {
    assume a: "find_input_memory fm (memory_name ps) = Inr (Some m)
       \<and> m (artifact_namespace ps) = Inr [a]
       \<and> save_memory_artifacts_to_disk fm ps st = (r, st') \<and> file_written st st' q"
    then obtain r0 where sv: "save_to_disk (posix_join (workdir fm) [dir_name ps, file_name ps])
        (value a) st = (r0, st')"
      using write_result_state
        [of "save_to_disk (posix_join (workdir fm) [dir_name ps, file_name ps]) (value a) st" r st']
      by (auto simp: save_memory_artifacts_to_disk_def)
    from a have fw: "file_written st st' q" by simp
    show "q = place_of (posix_join (workdir fm) [dir_name ps, file_name ps])"
      using save_to_disk_writes [OF sv absolute_posix_join [OF ab] fw] .
    assume si: "stays_inside [dir_name ps, file_name ps]"
    show "strict_prefix (place_of (workdir fm)) q"
      using save_inside_workdir [OF ab si _ sv fw] by simp
  }
  {
    assume a: "find_input_memory fm (memory_name ps) = Inr (Some m)
       \<and> m (artifact_namespace ps) = Inr arts \<and> 1 < length arts
       \<and> save_memory_artifacts_to_disk fm ps st = (r, st') \<and> file_written st st' q"
    then have "length arts \<noteq> 0" and "length arts \<noteq> 1" by auto
    with a obtain r0 where sv: "save_each (workdir fm) (dir_name ps) (file_name ps) arts st = (r0, st')"
      using write_result_state
        [of "save_each (workdir fm) (dir_name ps) (file_name ps) arts st" r st']
      by (auto simp: save_memory_artifacts_to_disk_def)
    from a have fw: "file_written st st' q" by simp
    from save_each_writes [OF ab sv fw]
    show "\<exists>a \<in> set arts.
              q = place_of (posix_join (workdir fm)
                    [dir_name ps, name a @ ''-'' @ file_name ps])"
      by (simp add: prefixed_name_def)
    assume "\<forall>a \<in> set arts. stays_inside [dir_name ps, name a @ ''-'' @ file_name ps]"
    then have "\<forall>a \<in> set arts. stays_inside [dir_name ps, prefixed_name a (file_name ps)]"
      by (simp add: prefixed_name_def)
    from save_each_inside_workdir [OF ab this sv fw]
    show "strict_prefix (place_of (workdir fm)) q" .
  }
  {
    assume "(find_input_memory fm (memory_name ps) = Inl e
        \<or> find_input_memory fm (memory_name ps) = Inr None
        \<or> (find_input_memory fm (memory_name ps) = Inr (Some m)
            \<and> (m (artifact_namespace ps) = Inl e \<or> m (artifact_namespace ps) = Inr [])))
       \<and> save_memory_artifacts_to_disk fm ps st = (r, st')"
    then show "st' = st" by (auto simp: save_memory_artifacts_to_disk_def)
  }
qed

theorem C5_witness:
  "[''w'', ''d'', ''e'', ''f.txt''] = place_of (posix_join (workdir example_fm) [''d/e/f.txt''])
   \<and> strict_prefix (place_of (workdir example_fm)) [''w'', ''d'', ''e'', ''f.txt'']"
proof -
  have ab: "is_absolute (workdir example_fm)"
    by (simp add: is_absolute_def example_fm_def path_defs)
  have h: "save_content_to_file example_fm ''d/e/f.txt'' xyz example_fs
     = (fst (save_content_to_file example_fm ''d/e/f.txt'' xyz example_fs),
        snd (save_content_to_file example_fm ''d/e/f.txt'' xyz example_fs))
     \<and> file_written example_fs
         (snd (save_content_to_file example_fm ''d/e/f.txt'' xyz example_fs))
         [''w'', ''d'', ''e'', ''f.txt'']"
    using example_written by simp
  have si: "stays_inside [''d/e/f.txt'']"
    by (simp add: stays_inside_def names_of_def path_defs)
  note t = C5_writes_stay_below_workdir [OF ab, THEN conjunct1, rule_format, OF h]
  from t have a: "[''w'', ''d'', ''e'', ''f.txt'']
     = place_of (posix_join (workdir example_fm) [''d/e/f.txt''])"
    by (rule conjunct1)
  from t si have b: "strict_prefix (place_of (workdir example_fm)) [''w'', ''d'', ''e'', ''f.txt'']"
    by blast
  from a b show ?thesis by (rule conjI)
qed

theorem C5_counterexample:
  "is_absolute (workdir example_fm)
   \<and> place_of (workdir example_fm) = [''w'']
   \<and> file_written example_fs (snd (save_content_to_file example_fm ''../x'' xyz example_fs))
       [''x'']
   \<and> \<not> strict_prefix [''w''] [''x'']
   \<and> file_written example_fs (snd (save_content_to_file example_fm ''/etc/x'' xyz example_fs))
       [''etc'', ''x'']
   \<and> \<not> strict_prefix [''w''] [''etc'', ''x'']"
  by (simp add: is_absolute_def place_of_def names_of_def file_written_def is_regular_def
      run_defs path_defs os_defs value_defs)

subsection \<open>C6: \<open>process_output\<close>\<close>

text \<open>
  C6, as the code has it: \<open>process_output\<close> returns a value that is not a TextArtifact
  as it is and leaves the store alone. For a TextArtifact it saves the text with the
  driver; when the driver returns a key and the rendering of the template with the name
  of the ramp, the name of the tool, the name of the activity and that key returns a
  string, the result is a new TextArtifact holding that string. When the driver raises,
  or the rendering does, \<open>process_output\<close> raises the same exception, having no handler,
  and the store is as \<open>save\<close> left it.
\<close>

theorem C6_process_output:
  "(\<not> is_TextArtifact v \<longrightarrow> process_output j2 ramp act v d = (Inr v, d))
   \<and> (save (driver ramp) t d = (Inr key, d1)
       \<and> j2 (ramp_name ramp) (tool_name act) (activity_name act) key = Inr rendered
      \<longrightarrow> process_output j2 ramp act (TextArtifact t) d = (Inr (TextArtifact rendered), d1))
   \<and> (save (driver ramp) t d = (Inl e, d1)
      \<longrightarrow> process_output j2 ramp act (TextArtifact t) d = (Inl e, d1))
   \<and> (save (driver ramp) t d = (Inr key, d1)
       \<and> j2 (ramp_name ramp) (tool_name act) (activity_name act) key = Inl e
      \<longrightarrow> process_output j2 ramp act (TextArtifact t) d = (Inl e, d1))"
proof (intro conjI impI)
  assume "\<not> is_TextArtifact v"
  then show "process_output j2 ramp act v d = (Inr v, d)"
    by (cases v) (simp_all add: process_output_def)
next
  assume "save (driver ramp) t d = (Inr key, d1)
       \<and> j2 (ramp_name ramp) (tool_name act) (activity_name act) key = Inr rendered"
  then show "process_output j2 ramp act (TextArtifact t) d = (Inr (TextArtifact rendered), d1)"
    by (simp add: process_output_def)
next
  assume "save (driver ramp) t d = (Inl e, d1)"
  then show "process_output j2 ramp act (TextArtifact t) d = (Inl e, d1)"
    by (simp add: process_output_def)
next
  assume "save (driver ramp) t d = (Inr key, d1)
       \<and> j2 (ramp_name ramp) (tool_name act) (activity_name act) key = Inl e"
  then show "process_output j2 ramp act (TextArtifact t) d = (Inl e, d1)"
    by (simp add: process_output_def)
qed

theorem C6_witness:
  "process_output example_render \<lparr>ramp_name = ''store'', driver = list_driver\<rparr>
      \<lparr>tool_name = ''files'', activity_name = ''load''\<rparr> (TextArtifact ''hello'') [''first'']
     = (Inr (TextArtifact ''store:files.load#k''), [''first'', ''hello''])
   \<and> process_output example_render \<lparr>ramp_name = ''store'', driver = list_driver\<rparr>
      \<lparr>tool_name = ''files'', activity_name = ''load''\<rparr> (InfoArtifact ''done'') [''first'']
     = (Inr (InfoArtifact ''done''), [''first''])"
proof -
  let ?ramp = "\<lparr>ramp_name = ''store'', driver = list_driver\<rparr>"
  let ?act = "\<lparr>tool_name = ''files'', activity_name = ''load''\<rparr>"
  have h: "save (driver ?ramp) ''hello'' [''first''] = (Inr ''k'', [''first'', ''hello''])
       \<and> example_render (ramp_name ?ramp) (tool_name ?act) (activity_name ?act) ''k''
           = Inr ''store:files.load#k''"
    by (simp add: list_driver_def example_render_def)
  have n: "\<not> is_TextArtifact (InfoArtifact ''done'')" by simp
  from C6_process_output
    [where ramp = ?ramp and act = ?act and t = "''hello''" and d = "[''first'']"
       and key = "''k''" and ?d1.0 = "[''first'', ''hello'']" and ?j2.0 = example_render
       and rendered = "''store:files.load#k''",
     THEN conjunct2, THEN conjunct1, rule_format, OF h]
    C6_process_output
    [where ramp = ?ramp and act = ?act and v = "InfoArtifact ''done''" and d = "[''first'']"
       and ?j2.0 = example_render,
     THEN conjunct1, rule_format, OF n]
  show ?thesis by simp
qed

theorem C6_counterexample:
  "process_output example_render \<lparr>ramp_name = ''store'', driver = failing_driver\<rparr>
      \<lparr>tool_name = ''files'', activity_name = ''load''\<rparr> (TextArtifact ''hello'') ()
     = (Inl (OtherError ''storage unavailable''), ())
   \<and> process_output failing_render \<lparr>ramp_name = ''store'', driver = list_driver\<rparr>
      \<lparr>tool_name = ''files'', activity_name = ''load''\<rparr> (TextArtifact ''hello'') [''first'']
     = (Inl (OtherError ''template not found''), [''first'', ''hello''])"
  by (simp add: process_output_def failing_driver_def failing_render_def list_driver_def)

subsection \<open>C7: the two record activities\<close>

text \<open>
  C7: \<open>search_record\<close> is the driver's \<open>query_record\<close> on the id and the query, and
  \<open>summarize_record\<close> is the driver's \<open>summarize_record\<close> on the id: the same result (an
  artifact, or the exception the driver raised) and the same store afterwards, nothing
  added.
\<close>

theorem C7_pure_delegation:
  "search_record ramp v d = query_record (driver ramp) (record_id v) (query v) d
   \<and> summarize_record ramp i d = summarize_record_of (driver ramp) i d"
  by (simp add: search_record_def summarize_record_def)

theorem C7_witness:
  "search_record \<lparr>ramp_name = ''store'', driver = list_driver\<rparr>
      \<lparr>record_id = ''k'', query = ''what''\<rparr> [''first'', ''second'']
     = (Inr (TextArtifact ''second''), [''first'', ''second''])
   \<and> summarize_record \<lparr>ramp_name = ''store'', driver = list_driver\<rparr> ''k'' [''first'', ''second'']
     = (Inr (TextArtifact ''sec''), [''first'', ''second''])"
  using C7_pure_delegation [of "\<lparr>ramp_name = ''store'', driver = list_driver\<rparr>"
      "\<lparr>record_id = ''k'', query = ''what''\<rparr>" "[''first'', ''second'']" "''k''"]
  by (simp add: list_driver_def)

subsection \<open>C8: a save makes the directories it needs\<close>

text \<open>
  C8, as the code has it, on a file system without symbolic links that refuses nothing
  for permissions, space or the length of a name, and for a tool with an absolute
  workdir. A write to the joined path \<open>s\<close> succeeds exactly when \<open>s\<close> has no NUL byte and
  ends in a file name (not empty, not \<open>.\<close>, not \<open>..\<close>), none of the directories the
  components before the last lead through (\<open>..\<close> going up) is a regular file, the
  target is neither a directory nor one of those directories, and the value can be
  turned into bytes (a \<open>str\<close> without surrogates, or bytes). Then the save returns
  InfoArtifact("saved successfully"); afterwards the target is a file holding the bytes,
  every directory on the way exists, created when it was missing, the directories that
  were there are kept, and nothing else has changed. Otherwise \<open>os.makedirs\<close>, \<open>open\<close>,
  \<open>encode\<close> or \<open>write\<close> raises some \<open>e\<close> and the save returns the ErrorArtifact
  \<open>error writing file to disk: str(e)\<close>. This holds for \<open>save_content_to_file\<close> and for
  \<open>save_memory_artifacts_to_disk\<close> with one artifact; with several artifacts the result
  is the InfoArtifact exactly when every write, in order, finds these conditions in the
  tree the writes before it have left, and the ErrorArtifact of the first failing write
  otherwise.
\<close>

theorem C8_save_creates_directories:
  assumes "is_absolute (workdir fm)"
  shows
  "(can_save st (posix_join (workdir fm) [p]) (PyStr c)
      \<longrightarrow> save_content_to_file fm p c st
            = (Inr (InfoArtifact ''saved successfully''),
               saved st (posix_join (workdir fm) [p]) (utf8 c)))
   \<and> (\<not> can_save st (posix_join (workdir fm) [p]) (PyStr c)
      \<longrightarrow> (\<exists>e st'. save_to_disk (posix_join (workdir fm) [p]) (PyStr c) st = (Inl e, st')
            \<and> save_content_to_file fm p c st
              = (Inr (ErrorArtifact (''error writing file to disk: '' @ str_exn e)), st')))
   \<and> (find_input_memory fm (memory_name ps) = Inr (Some m)
       \<and> m (artifact_namespace ps) = Inr [a]
       \<and> can_save st (posix_join (workdir fm) [dir_name ps, file_name ps]) (value a)
      \<longrightarrow> save_memory_artifacts_to_disk fm ps st
            = (Inr (InfoArtifact ''saved successfully''),
               saved st (posix_join (workdir fm) [dir_name ps, file_name ps])
                 (projr (to_bytes (value a)))))
   \<and> (find_input_memory fm (memory_name ps) = Inr (Some m)
       \<and> m (artifact_namespace ps) = Inr [a]
       \<and> \<not> can_save st (posix_join (workdir fm) [dir_name ps, file_name ps]) (value a)
      \<longrightarrow> (\<exists>e st'. save_to_disk (posix_join (workdir fm) [dir_name ps, file_name ps])
                      (value a) st = (Inl e, st')
            \<and> save_memory_artifacts_to_disk fm ps st
              = (Inr (ErrorArtifact (''error writing file to disk: '' @ str_exn e)), st')))
   \<and> (find_input_memory fm (memory_name ps) = Inr (Some m)
       \<and> m (artifact_namespace ps) = Inr arts \<and> 1 < length arts
       \<and> all_saved
            (map (\<lambda>a. (posix_join (workdir fm) [dir_name ps, name a @ ''-'' @ file_name ps],
                        value a)) arts) st = Some st1
      \<longrightarrow> save_memory_artifacts_to_disk fm ps st
            = (Inr (InfoArtifact ''saved successfully''), st1))
   \<and> (find_input_memory fm (memory_name ps) = Inr (Some m)
       \<and> m (artifact_namespace ps) = Inr arts \<and> 1 < length arts
       \<and> all_saved
            (map (\<lambda>a. (posix_join (workdir fm) [dir_name ps, name a @ ''-'' @ file_name ps],
                        value a)) arts) st = None
      \<longrightarrow> (\<exists>e st'. save_memory_artifacts_to_disk fm ps st
              = (Inr (ErrorArtifact (''error writing file to disk: '' @ str_exn e)), st')))
   \<and> (can_save st s v
      \<longrightarrow> files (saved st s data) (place_of s) = Some (File data)
          \<and> (\<forall>q \<in> set (way_of s). files (saved st s data) q = Some Dir)
          \<and> (\<forall>q. node_at st q = Some Dir \<longrightarrow> node_at (saved st s data) q = Some Dir)
          \<and> (\<forall>q. q \<noteq> place_of s \<and> q \<notin> set (way_of s)
                \<longrightarrow> files (saved st s data) q = files st q))"
proof (intro conjI impI)
  from assms have ab: "startswith_sep (workdir fm)" by (simp add: is_absolute_def)
  note abs = absolute_posix_join [OF ab]
  {
    assume cs: "can_save st (posix_join (workdir fm) [p]) (PyStr c)"
    then have "\<not> isl (str_encode c)" by (simp add: can_save_def to_bytes_def)
    then obtain data where "str_encode c = Inr data" by (cases "str_encode c") simp_all
    with str_encode_utf8 [of c data] have "projr (to_bytes (PyStr c)) = utf8 c"
      by (simp add: to_bytes_def)
    with save_to_disk_ok [OF abs cs]
    show "save_content_to_file fm p c st
            = (Inr (InfoArtifact ''saved successfully''),
               saved st (posix_join (workdir fm) [p]) (utf8 c))"
      by (simp add: save_content_to_file_def write_result_def)
  }
  {
    assume "\<not> can_save st (posix_join (workdir fm) [p]) (PyStr c)"
    from save_to_disk_fails [OF abs this]
    show "\<exists>e st'. save_to_disk (posix_join (workdir fm) [p]) (PyStr c) st = (Inl e, st')
            \<and> save_content_to_file fm p c st
              = (Inr (ErrorArtifact (''error writing file to disk: '' @ str_exn e)), st')"
      by (auto simp: save_content_to_file_def write_result_def)
  }
  {
    assume a: "find_input_memory fm (memory_name ps) = Inr (Some m)
       \<and> m (artifact_namespace ps) = Inr [a]
       \<and> can_save st (posix_join (workdir fm) [dir_name ps, file_name ps]) (value a)"
    then have "can_save st (posix_join (workdir fm) [dir_name ps, file_name ps]) (value a)"
      by simp
    from save_to_disk_ok [OF abs this] a
    show "save_memory_artifacts_to_disk fm ps st
            = (Inr (InfoArtifact ''saved successfully''),
               saved st (posix_join (workdir fm) [dir_name ps, file_name ps])
                 (projr (to_bytes (value a))))"
      by (simp add: save_memory_artifacts_to_disk_def write_result_def)
  }
  {
    assume a: "find_input_memory fm (memory_name ps) = Inr (Some m)
       \<and> m (artifact_namespace ps) = Inr [a]
       \<and> \<not> can_save st (posix_join (workdir fm) [dir_name ps, file_name ps]) (value a)"
    then have "\<not> can_save st (posix_join (workdir fm) [dir_name ps, file_name ps]) (value a)"
      by simp
    from save_to_disk_fails [OF abs this] a
    show "\<exists>e st'. save_to_disk (posix_join (workdir fm) [dir_name ps, file_name ps])
                      (value a) st = (Inl e, st')
            \<and> save_memory_artifacts_to_disk fm ps st
              = (Inr (ErrorArtifact (''error writing file to disk: '' @ str_exn e)), st')"
      by (auto simp: save_memory_artifacts_to_disk_def write_result_def)
  }
  {
    assume a: "find_input_memory fm (memory_name ps) = Inr (Some m)
       \<and> m (artifact_namespace ps) = Inr arts \<and> 1 < length arts
       \<and> all_saved
            (map (\<lambda>a. (posix_join (workdir fm) [dir_name ps, name a @ ''-'' @ file_name ps],
                        value a)) arts) st = Some st1"
    then have "save_each (workdir fm) (dir_name ps) (file_name ps) arts st = (Inr (), st1)"
      using all_saved_save_each [OF ab, of "dir_name ps" "file_name ps" arts st st1]
      by (simp add: prefixed_name_def)
    moreover from a have "length arts \<noteq> 0" and "length arts \<noteq> 1" by auto
    ultimately show "save_memory_artifacts_to_disk fm ps st
            = (Inr (InfoArtifact ''saved successfully''), st1)"
      using a by (simp add: save_memory_artifacts_to_disk_def write_result_def)
  }
  {
    assume a: "find_input_memory fm (memory_name ps) = Inr (Some m)
       \<and> m (artifact_namespace ps) = Inr arts \<and> 1 < length arts
       \<and> all_saved
            (map (\<lambda>a. (posix_join (workdir fm) [dir_name ps, name a @ ''-'' @ file_name ps],
                        value a)) arts) st = None"
    then obtain e st' where
      "save_each (workdir fm) (dir_name ps) (file_name ps) arts st = (Inl e, st')"
      using all_saved_save_each [OF ab, of "dir_name ps" "file_name ps" arts st st1]
      by (auto simp: prefixed_name_def)
    moreover from a have "length arts \<noteq> 0" and "length arts \<noteq> 1" by auto
    ultimately show "\<exists>e st'. save_memory_artifacts_to_disk fm ps st
              = (Inr (ErrorArtifact (''error writing file to disk: '' @ str_exn e)), st')"
      using a by (auto simp: save_memory_artifacts_to_disk_def write_result_def)
  }
  {
    assume cs: "can_save st s v"
    show "files (saved st s data) (place_of s) = Some (File data)"
      using saved_nodes(1) [OF cs] .
    show "\<forall>q \<in> set (way_of s). files (saved st s data) q = Some Dir"
      using saved_nodes(2) [OF cs] by blast
    show "\<forall>q. node_at st q = Some Dir \<longrightarrow> node_at (saved st s data) q = Some Dir"
      using saved_nodes(3) [OF cs] by blast
    show "\<forall>q. q \<noteq> place_of s \<and> q \<notin> set (way_of s)
                \<longrightarrow> files (saved st s data) q = files st q"
      using saved_nodes(4) [OF cs] by blast
  }
qed

theorem C8_witness:
  "fst (save_content_to_file example_fm ''d/e/f.txt'' xyz example_fs)
     = Inr (InfoArtifact ''saved successfully'')
   \<and> files (snd (save_content_to_file example_fm ''d/e/f.txt'' xyz example_fs))
       [''w'', ''d'', ''e'', ''f.txt''] = Some (File ''xyz'')
   \<and> files (snd (save_content_to_file example_fm ''d/e/f.txt'' xyz example_fs))
       [''w'', ''d''] = Some Dir
   \<and> files (snd (save_content_to_file example_fm ''d/e/f.txt'' xyz example_fs))
       [''w'', ''d'', ''e''] = Some Dir
   \<and> files (snd (save_content_to_file example_fm ''d/e/f.txt'' xyz example_fs))
       [''w'', ''sub''] = Some Dir"
proof -
  have ab: "is_absolute (workdir example_fm)"
    by (simp add: is_absolute_def example_fm_def path_defs)
  have s: "posix_join (workdir example_fm) [''d/e/f.txt''] = ''/w/d/e/f.txt''"
    by (simp add: example_fm_def path_defs)
  have h: "can_save example_fs (posix_join (workdir example_fm) [''d/e/f.txt'']) (PyStr xyz)"
    using example_can_save s by simp
  note eq = C8_save_creates_directories [OF ab, THEN conjunct1, rule_format, OF h,
      unfolded s example_utf8]
  from eq show ?thesis by (simp add: example_saved)
qed

theorem C8_counterexample:
  "fst (save_content_to_file example_fm ''a.txt/b.txt'' xyz example_fs)
     = Inr (ErrorArtifact (''error writing file to disk: [Errno 17] File exists: ''
          @ [CHR 0x27] @ ''/w/a.txt'' @ [CHR 0x27]))
   \<and> fst (save_content_to_file example_fm ''a.txt/new/b.txt'' xyz example_fs)
     = Inr (ErrorArtifact (''error writing file to disk: [Errno 20] Not a directory: ''
          @ [CHR 0x27] @ ''/w/a.txt/new'' @ [CHR 0x27]))
   \<and> fst (save_content_to_file example_fm ''sub'' xyz example_fs)
     = Inr (ErrorArtifact (''error writing file to disk: [Errno 21] Is a directory: ''
          @ [CHR 0x27] @ ''/w/sub'' @ [CHR 0x27]))
   \<and> fst (save_content_to_file example_fm ''new/'' xyz example_fs)
     = Inr (ErrorArtifact (''error writing file to disk: [Errno 21] Is a directory: ''
          @ [CHR 0x27] @ ''/w/new/'' @ [CHR 0x27]))
   \<and> fst (save_content_to_file example_fm ''new/../new'' xyz example_fs)
     = Inr (ErrorArtifact (''error writing file to disk: [Errno 21] Is a directory: ''
          @ [CHR 0x27] @ ''/w/new/../new'' @ [CHR 0x27]))
   \<and> fst (save_content_to_file example_fm (''new/n'' @ [CHR 0x00]) xyz example_fs)
     = Inr (ErrorArtifact ''error writing file to disk: embedded null byte'')
   \<and> fst (save_content_to_file example_fm ''new/n.txt'' [0xD800] example_fs)
     = Inr (ErrorArtifact (''error writing file to disk: '' @ [CHR 0x27] @ ''utf-8''
          @ [CHR 0x27] @ '' codec can'' @ [CHR 0x27] @ ''t encode character ''
          @ [CHR 0x27, CHR 0x5C] @ ''ud800'' @ [CHR 0x27]
          @ '' in position 0: surrogates not allowed''))
   \<and> files (snd (save_content_to_file example_fm ''new/n.txt'' [0xD800] example_fs))
       [''w'', ''new'', ''n.txt''] = Some (File [])
   \<and> fst (save_memory_artifacts_to_disk example_tool
        \<lparr>memory_name = ''notes'', artifact_namespace = ''odd'', dir_name = ''new'',
         file_name = ''n.txt''\<rparr> example_fs)
     = Inr (ErrorArtifact (''error writing file to disk: a bytes-like object is required, not ''
          @ [CHR 0x27] @ ''int'' @ [CHR 0x27]))"
  by (simp add: save_memory_artifacts_to_disk_def example_tool_def example_memory_def
      py_repr_def repr_char_def hex_digit_def dec.simps
      run_defs path_defs os_defs value_defs)

subsection \<open>C9: the first failure ends the loading\<close>

text \<open>
  C9: the paths are loaded in order; at the first path whose loading raises, the result is
  the single ErrorArtifact for that path, whatever was loaded before it and whatever
  follows it. A ListArtifact is returned only when every path loaded, and then it holds
  one artifact for each path, in order: never a part of them.
\<close>

theorem C9_first_failure_ends_loading:
  "((\<forall>q \<in> set pre. \<exists>a. ld (workdir fm) (Path_str q) st = Inr a)
      \<and> ld (workdir fm) (Path_str p) st = Inl e
      \<longrightarrow> load_files_from_disk ld fm (pre @ p # post) st
            = Inr (ErrorArtifact (load_error_message p e)))
   \<and> (load_files_from_disk ld fm paths st = Inr (ListArtifact loaded)
      \<longrightarrow> loaded = map (\<lambda>q. projr (ld (workdir fm) (Path_str q) st)) paths
          \<and> (\<forall>q \<in> set paths. \<exists>a. ld (workdir fm) (Path_str q) st = Inr a))
   \<and> (\<exists>r. load_files_from_disk ld fm paths st = Inr r)"
proof (intro conjI impI)
  assume "(\<forall>q \<in> set pre. \<exists>a. ld (workdir fm) (Path_str q) st = Inr a)
      \<and> ld (workdir fm) (Path_str p) st = Inl e"
  then show "load_files_from_disk ld fm (pre @ p # post) st
            = Inr (ErrorArtifact (load_error_message p e))"
    unfolding load_files_from_disk_def by (intro load_loop_first_failure) simp_all
next
  assume r: "load_files_from_disk ld fm paths st = Inr (ListArtifact loaded)"
  with load_loop_result [of ld "workdir fm" st "[]" paths]
  show "loaded = map (\<lambda>q. projr (ld (workdir fm) (Path_str q) st)) paths"
    by (auto simp: load_files_from_disk_def)
  from r load_loop_result [of ld "workdir fm" st "[]" paths]
  show "\<forall>q \<in> set paths. \<exists>a. ld (workdir fm) (Path_str q) st = Inr a"
    by (auto simp: load_files_from_disk_def)
next
  from load_loop_result [of ld "workdir fm" st "[]" paths]
  show "\<exists>r. load_files_from_disk ld fm paths st = Inr r"
    by (auto simp: load_files_from_disk_def)
qed

theorem C9_witness:
  "load_files_from_disk FileLoader_load example_fm [''a.txt'', ''gone.txt'', ''a.txt''] example_fs
     = Inr (ErrorArtifact (''file in path '' @ [CHR 0x60] @ ''gone.txt'' @ [CHR 0x60] @ '' not found''))"
proof -
  have pre: "\<forall>q \<in> set [''a.txt'']. \<exists>a. FileLoader_load (workdir example_fm) (Path_str q) example_fs = Inr a"
    using example_load_a by (simp add: example_fm_def)
  have bad: "FileLoader_load (workdir example_fm) (Path_str ''gone.txt'') example_fs
     = Inl (FileNotFoundError ''/w/gone.txt'')"
    using example_load_gone by (simp add: example_fm_def)
  from C9_first_failure_ends_loading
    [of "[''a.txt'']" FileLoader_load example_fm example_fs "''gone.txt''"
        "FileNotFoundError ''/w/gone.txt''" "[''a.txt'']"] pre bad
  have "load_files_from_disk FileLoader_load example_fm ([''a.txt''] @ ''gone.txt'' # [''a.txt'']) example_fs
       = Inr (ErrorArtifact (load_error_message ''gone.txt'' (FileNotFoundError ''/w/gone.txt'')))"
    by blast
  then show ?thesis by (simp add: load_error_message_def)
qed

subsection \<open>C10: the cases of \<open>save_memory_artifacts_to_disk\<close>\<close>

text \<open>
  C10: \<open>save_memory_artifacts_to_disk\<close> returns ErrorArtifact("memory not found") when the
  memory is not found and ErrorArtifact("no artifacts found") when the namespace holds no
  artifact, and writes nothing in either case. With exactly one artifact it writes the
  artifact's value to the join of the work directory, \<open>dir_name\<close> and \<open>file_name\<close>;
  with more than one it writes every artifact \<open>a\<close>, in order, to the join of the work
  directory, \<open>dir_name\<close> and \<open>a.name-file_name\<close>. When the writes succeed the result is
  InfoArtifact("saved successfully"), and with one artifact the file then holds its bytes.
\<close>

theorem C10_save_memory_artifacts_dispatch:
  "(find_input_memory fm (memory_name ps) = Inr None
      \<longrightarrow> save_memory_artifacts_to_disk fm ps st
            = (Inr (ErrorArtifact ''memory not found''), st))
   \<and> (find_input_memory fm (memory_name ps) = Inr (Some m)
       \<and> m (artifact_namespace ps) = Inr []
      \<longrightarrow> save_memory_artifacts_to_disk fm ps st
            = (Inr (ErrorArtifact ''no artifacts found''), st))
   \<and> (find_input_memory fm (memory_name ps) = Inr (Some m)
       \<and> m (artifact_namespace ps) = Inr [a]
       \<and> save_to_disk (posix_join (workdir fm) [dir_name ps, file_name ps]) (value a) st
           = (Inr (), st1)
      \<longrightarrow> save_memory_artifacts_to_disk fm ps st
            = (Inr (InfoArtifact ''saved successfully''), st1)
          \<and> os_read_file st1 (posix_join (workdir fm) [dir_name ps, file_name ps])
            = to_bytes (value a)
          \<and> \<not> isl (to_bytes (value a)))
   \<and> (find_input_memory fm (memory_name ps) = Inr (Some m)
       \<and> m (artifact_namespace ps) = Inr arts \<and> 1 < length arts
       \<and> writes_in_order
            (map (\<lambda>a. (posix_join (workdir fm) [dir_name ps, name a @ ''-'' @ file_name ps],
                        value a)) arts) st = Some st1
      \<longrightarrow> save_memory_artifacts_to_disk fm ps st
            = (Inr (InfoArtifact ''saved successfully''), st1))"
proof (intro conjI impI)
  assume "find_input_memory fm (memory_name ps) = Inr None"
  then show "save_memory_artifacts_to_disk fm ps st
            = (Inr (ErrorArtifact ''memory not found''), st)"
    by (simp add: save_memory_artifacts_to_disk_def)
next
  assume "find_input_memory fm (memory_name ps) = Inr (Some m)
       \<and> m (artifact_namespace ps) = Inr []"
  then show "save_memory_artifacts_to_disk fm ps st
            = (Inr (ErrorArtifact ''no artifacts found''), st)"
    by (simp add: save_memory_artifacts_to_disk_def)
next
  assume a: "find_input_memory fm (memory_name ps) = Inr (Some m)
       \<and> m (artifact_namespace ps) = Inr [a]
       \<and> save_to_disk (posix_join (workdir fm) [dir_name ps, file_name ps]) (value a) st
           = (Inr (), st1)"
  then show "save_memory_artifacts_to_disk fm ps st
            = (Inr (InfoArtifact ''saved successfully''), st1)"
    by (simp add: save_memory_artifacts_to_disk_def write_result_def)
  from a show "os_read_file st1 (posix_join (workdir fm) [dir_name ps, file_name ps])
            = to_bytes (value a)"
    by (blast intro: save_to_disk_then_read)
  from a show "\<not> isl (to_bytes (value a))"
    using save_to_disk_encodes
      [of "posix_join (workdir fm) [dir_name ps, file_name ps]" "value a" st "()" st1]
    by auto
next
  assume a: "find_input_memory fm (memory_name ps) = Inr (Some m)
       \<and> m (artifact_namespace ps) = Inr arts \<and> 1 < length arts
       \<and> writes_in_order
            (map (\<lambda>a. (posix_join (workdir fm) [dir_name ps, name a @ ''-'' @ file_name ps],
                        value a)) arts) st = Some st1"
  then have "save_each (workdir fm) (dir_name ps) (file_name ps) arts st = (Inr (), st1)"
    by (intro writes_in_order_save_each) simp
  moreover from a have "length arts \<noteq> 0" and "length arts \<noteq> 1" by auto
  ultimately show "save_memory_artifacts_to_disk fm ps st
            = (Inr (InfoArtifact ''saved successfully''), st1)"
    using a by (simp add: save_memory_artifacts_to_disk_def write_result_def)
qed

theorem C10_witness:
  "fst (save_memory_artifacts_to_disk example_tool
      \<lparr>memory_name = ''notes'', artifact_namespace = ''two'', dir_name = ''out'',
       file_name = ''f.txt''\<rparr> example_fs)
     = Inr (InfoArtifact ''saved successfully'')
   \<and> files (snd (save_memory_artifacts_to_disk example_tool
      \<lparr>memory_name = ''notes'', artifact_namespace = ''two'', dir_name = ''out'',
       file_name = ''f.txt''\<rparr> example_fs)) [''w'', ''out'', ''a-f.txt''] = Some (File ''A'')
   \<and> files (snd (save_memory_artifacts_to_disk example_tool
      \<lparr>memory_name = ''notes'', artifact_namespace = ''two'', dir_name = ''out'',
       file_name = ''f.txt''\<rparr> example_fs)) [''w'', ''out'', ''b-f.txt''] = Some (File ''B'')"
proof -
  let ?ps = "\<lparr>memory_name = ''notes'', artifact_namespace = ''two'', dir_name = ''out'',
       file_name = ''f.txt''\<rparr>"
  let ?arts = "[\<lparr>name = ''a'', value = PyStr [65]\<rparr>, \<lparr>name = ''b'', value = PyBytes ''B''\<rparr>]"
  from example_two_writes obtain st1 where
    w: "writes_in_order
      (map (\<lambda>a. (posix_join ''/w'' [''out'', name a @ ''-'' @ ''f.txt''], value a)) ?arts)
      example_fs = Some st1"
    and f: "files st1 [''w'', ''out'', ''a-f.txt''] = Some (File ''A'')"
      "files st1 [''w'', ''out'', ''b-f.txt''] = Some (File ''B'')"
    by blast
  have h: "find_input_memory example_tool (memory_name ?ps) = Inr (Some example_memory)
       \<and> example_memory (artifact_namespace ?ps) = Inr ?arts \<and> 1 < length ?arts
       \<and> writes_in_order
            (map (\<lambda>a. (posix_join (workdir example_tool)
                          [dir_name ?ps, name a @ ''-'' @ file_name ?ps], value a)) ?arts)
            example_fs = Some st1"
    using w by (simp add: example_tool_def example_memory_def)
  have "save_memory_artifacts_to_disk example_tool ?ps example_fs
     = (Inr (InfoArtifact ''saved successfully''), st1)"
    using C10_save_memory_artifacts_dispatch
      [where fm = example_tool and ps = ?ps and st = example_fs and m = example_memory
         and arts = ?arts and ?st1.0 = st1,
       THEN conjunct2, THEN conjunct2, THEN conjunct2, rule_format, OF h] .
  with f show ?thesis by simp
qed

end
